theory Spec2Isabelle
  imports Complex_Main "HOL-Library.Stream"
begin

unbundle bit_operations_syntax

section \<open>Values and errors\<close>

text \<open>
  A Python \<open>bytes\<close> or \<open>bytearray\<close> object is a list of 8-bit characters, so that the
  literal \<open>b'ISET1?'\<close> is the HOL string \<open>''ISET1?''\<close>.
\<close>

type_synonym bytes = "char list"

text \<open>The exceptions that the driver and the calls it makes can raise.\<close>

datatype error =
    AssertionError
  | UnicodeDecodeError
  | IndexError
  | TypeError
  | AttributeError
  | SerialException

text \<open>
  A Python float is a binary64 number: the real number it denotes, where \<open>Finite 0\<close> is
  the zero \<open>0.0\<close>, or the negative zero \<open>-0.0\<close>, an infinity or \<open>nan\<close>.
\<close>

datatype py_float = Finite real | PosInf | NegInf | NaN | NegZero

text \<open>
  The comparison \<open>x <= y\<close> of two floats; every comparison with \<open>nan\<close> is false, and
  the two zeros compare as equal.
\<close>

fun float_le :: "py_float \<Rightarrow> py_float \<Rightarrow> bool" where
  "float_le NaN y = False"
| "float_le x NaN = False"
| "float_le NegInf y = True"
| "float_le x PosInf = True"
| "float_le (Finite x) (Finite y) = (x \<le> y)"
| "float_le (Finite x) NegZero = (x \<le> 0)"
| "float_le NegZero (Finite y) = (0 \<le> y)"
| "float_le NegZero NegZero = True"
| "float_le x y = False"

text \<open>
  A Python \<open>str\<close> is represented by its UTF-8 encoding, so that \<open>encode("utf-8")\<close> keeps
  the characters and \<open>decode("utf-8")\<close> keeps the bytes when they are valid UTF-8.
\<close>

datatype py_value =
    PyNone
  | PyBool bool
  | PyInt int
  | PyFloat py_float
  | PyStr string
  | PyBytes bytes

definition encode_utf8 :: "string \<Rightarrow> bytes" where
  "encode_utf8 s = s"

section \<open>The builtins behind the response decoder\<close>

subsection \<open>\<open>float\<close> of a bytes object\<close>

text \<open>
  CPython's \<open>float(b)\<close> for a bytes-like \<open>b\<close>: underscores are allowed between digits
  only and are removed; ASCII whitespace is stripped on both sides; what is left must be,
  as a whole, a signed \<open>inf\<close>, \<open>infinity\<close> or \<open>nan\<close> in any case, or a signed decimal
  number with an optional fraction and an optional exponent. \<open>None\<close> is \<open>ValueError\<close>.
  The value of a decimal number is the binary64 number nearest to it, the one with the
  even significand when two are equally near: a number of 53 significant bits at most,
  a multiple of \<open>2 ^ -1074\<close>, an infinity from \<open>2 ^ 1024\<close> on, and a zero that keeps the
  sign when the number rounds to nothing.
\<close>

definition is_space :: "char \<Rightarrow> bool" where
  "is_space c = (c \<in> set [CHR '' '', CHR 0x09, CHR 0x0A, CHR 0x0B, CHR 0x0C, CHR 0x0D])"

definition is_digit :: "char \<Rightarrow> bool" where
  "is_digit c = (48 \<le> (of_char c :: nat) \<and> (of_char c :: nat) \<le> 57)"

definition to_lower :: "char \<Rightarrow> char" where
  "to_lower c =
     (if 65 \<le> (of_char c :: nat) \<and> (of_char c :: nat) \<le> 90
      then char_of ((of_char c :: nat) + 32) else c)"

definition digits_value :: "string \<Rightarrow> int" where
  "digits_value ds = foldl (\<lambda>a c. 10 * a + ((of_char c :: int) - 48)) 0 ds"

fun strip_underscores :: "char \<Rightarrow> string \<Rightarrow> string option" where
  "strip_underscores prev [] = (if prev = CHR ''_'' then None else Some [])"
| "strip_underscores prev (c # cs) =
     (if c = CHR ''_''
      then (if is_digit prev then strip_underscores c cs else None)
      else if prev = CHR ''_'' \<and> \<not> is_digit c then None
      else map_option ((#) c) (strip_underscores c cs))"

definition parse_sign :: "string \<Rightarrow> bool \<times> string" where
  "parse_sign s =
     (case s of
        [] \<Rightarrow> (False, s)
      | c # r \<Rightarrow>
          if c = CHR ''-'' then (True, r) else if c = CHR ''+'' then (False, r) else (False, s))"

definition parse_inf_or_nan :: "string \<Rightarrow> (py_float \<times> string) option" where
  "parse_inf_or_nan p =
     (let (negate, s) = parse_sign p in
      if map to_lower (take 3 s) = ''inf''
      then Some (if negate then NegInf else PosInf,
                 if map to_lower (take 5 (drop 3 s)) = ''inity'' then drop 8 s else drop 3 s)
      else if map to_lower (take 3 s) = ''nan'' then Some (NaN, drop 3 s)
      else None)"

definition parse_exponent :: "string \<Rightarrow> int \<times> string" where
  "parse_exponent s =
     (case s of
        [] \<Rightarrow> (0, s)
      | c # r \<Rightarrow>
          if c = CHR ''e'' \<or> c = CHR ''E''
          then (let (negate, r1) = parse_sign r; ds = takeWhile is_digit r1 in
                if ds = [] then (0, s)
                else (if negate then - digits_value ds else digits_value ds,
                      dropWhile is_digit r1))
          else (0, s))"

text \<open>The number of binary digits of a positive integer.\<close>

function bit_length :: "int \<Rightarrow> int" where
  "bit_length n = (if n \<le> 0 then 0 else 1 + bit_length (n div 2))"
  by pat_completeness auto
termination
  by (relation "measure nat") auto

declare bit_length.simps [simp del]

text \<open>
  The quotient \<open>a / b\<close> of two positive integers rounded to the nearest integer, to the
  even one on a tie.
\<close>

definition div_round_even :: "int \<Rightarrow> int \<Rightarrow> int" where
  "div_round_even a b =
     (let q = a div b; r = a mod b in
      if 2 * r < b then q
      else if b < 2 * r then q + 1
      else if even q then q else q + 1)"

text \<open>
  For \<open>num\<close> and \<open>den\<close> positive, the integer \<open>d\<close> with
  \<open>2 ^ d \<le> num / den < 2 ^ (d + 1)\<close>.
\<close>

definition binary_exponent :: "int \<Rightarrow> int \<Rightarrow> int" where
  "binary_exponent num den =
     (let d = bit_length num - bit_length den in
      if (if 0 \<le> d then den * 2 ^ nat d \<le> num else den \<le> num * 2 ^ nat (- d))
      then d else d - 1)"

text \<open>
  The binary64 number nearest to \<open>num / den\<close>, as a significand \<open>n\<close> and an exponent
  \<open>k\<close> that stand for \<open>n * 2 ^ k\<close>; \<open>None\<close> when the result is beyond the largest
  binary64 number.
\<close>

definition round_binary64 :: "int \<Rightarrow> int \<Rightarrow> (int \<times> int) option" where
  "round_binary64 num den =
     (let k = max (binary_exponent num den - 52) (- 1074);
          n = (if 0 \<le> k then div_round_even num (den * 2 ^ nat k)
               else div_round_even (num * 2 ^ nat (- k)) den)
      in if 971 < k \<or> (k = 971 \<and> n = 2 ^ 53) then None else Some (n, k))"

text \<open>The float that \<open>float\<close> gives for the decimal number \<open>m * 10 ^ e\<close> with a sign.\<close>

definition decimal_to_double :: "bool \<Rightarrow> int \<Rightarrow> int \<Rightarrow> py_float" where
  "decimal_to_double negate m e =
     (if m = 0 then (if negate then NegZero else Finite 0)
      else (case round_binary64 (if 0 \<le> e then m * 10 ^ nat e else m)
                                (if 0 \<le> e then 1 else 10 ^ nat (- e)) of
              None \<Rightarrow> (if negate then NegInf else PosInf)
            | Some (n, k) \<Rightarrow>
                if n = 0 then (if negate then NegZero else Finite 0)
                else (let x = (if 0 \<le> k then of_int (n * 2 ^ nat k)
                               else of_int n / 2 ^ nat (- k))
                      in Finite (if negate then - x else x))))"

definition strtod :: "string \<Rightarrow> (py_float \<times> string) option" where
  "strtod p =
     (let (negate, s1) = parse_sign p;
          ip = takeWhile is_digit s1;
          s2 = dropWhile is_digit s1;
          (fp, s3) = (case s2 of
                        [] \<Rightarrow> ([], s2)
                      | c # r \<Rightarrow>
                          if c = CHR ''.'' then (takeWhile is_digit r, dropWhile is_digit r)
                          else ([], s2))
      in if ip = [] \<and> fp = [] then None
         else (let (ex, s4) = parse_exponent s3
               in Some (decimal_to_double negate (digits_value (ip @ fp))
                          (ex - int (length fp)), s4)))"

definition string_to_double :: "string \<Rightarrow> (py_float \<times> string) option" where
  "string_to_double s = (case parse_inf_or_nan s of Some r \<Rightarrow> Some r | None \<Rightarrow> strtod s)"

definition float_from_string_inner :: "string \<Rightarrow> py_float option" where
  "float_from_string_inner s =
     (let t = dropWhile is_space s in
      if t = [] then None
      else (case string_to_double (rev (dropWhile is_space (rev t))) of
              None \<Rightarrow> None
            | Some (x, rest) \<Rightarrow> if rest = [] then Some x else None))"

definition float_of_bytes :: "bytes \<Rightarrow> py_float option" where
  "float_of_bytes b =
     (case strip_underscores (CHR 0x00) b of
        None \<Rightarrow> None
      | Some s \<Rightarrow> float_from_string_inner s)"

subsection \<open>The literals that \<open>float\<close> accepts, as they are written\<close>

text \<open>
  A decimal literal as a writer composes it: an optional sign, the digits before the
  point, an optional point with the digits after it, and an optional exponent, which is
  the letter \<open>e\<close> in either case, an optional sign and digits. It is well formed when
  there is a digit before or after the point (before it when there is no point) and the
  exponent, when present, has a digit. Its float is the binary64 number nearest to the
  decimal number it denotes. These definitions are the description of the input that
  the decoder is compared with.
\<close>

datatype sign = NoSign | Plus | Minus

fun sign_text :: "sign \<Rightarrow> string" where
  "sign_text NoSign = []"
| "sign_text Plus = ''+''"
| "sign_text Minus = ''-''"

fun sign_negative :: "sign \<Rightarrow> bool" where
  "sign_negative Minus = True"
| "sign_negative s = False"

definition fraction_text :: "string option \<Rightarrow> string" where
  "fraction_text f = (case f of None \<Rightarrow> [] | Some fp \<Rightarrow> CHR ''.'' # fp)"

definition fraction_digits :: "string option \<Rightarrow> string" where
  "fraction_digits f = (case f of None \<Rightarrow> [] | Some fp \<Rightarrow> fp)"

definition exponent_text :: "(bool \<times> sign \<times> string) option \<Rightarrow> string" where
  "exponent_text ex =
     (case ex of
        None \<Rightarrow> []
      | Some (upper, es, ed) \<Rightarrow> (if upper then CHR ''E'' else CHR ''e'') # sign_text es @ ed)"

definition exponent_value :: "(bool \<times> sign \<times> string) option \<Rightarrow> int" where
  "exponent_value ex =
     (case ex of
        None \<Rightarrow> 0
      | Some (upper, es, ed) \<Rightarrow> if sign_negative es then - digits_value ed else digits_value ed)"

definition decimal_text ::
  "sign \<Rightarrow> string \<Rightarrow> string option \<Rightarrow> (bool \<times> sign \<times> string) option \<Rightarrow> string" where
  "decimal_text sg ip f ex = sign_text sg @ ip @ fraction_text f @ exponent_text ex"

definition decimal_wf ::
  "string \<Rightarrow> string option \<Rightarrow> (bool \<times> sign \<times> string) option \<Rightarrow> bool" where
  "decimal_wf ip f ex =
     (list_all is_digit ip
      \<and> (case f of None \<Rightarrow> ip \<noteq> [] | Some fp \<Rightarrow> list_all is_digit fp \<and> (ip \<noteq> [] \<or> fp \<noteq> []))
      \<and> (case ex of None \<Rightarrow> True | Some (upper, es, ed) \<Rightarrow> ed \<noteq> [] \<and> list_all is_digit ed))"

definition decimal_float ::
  "sign \<Rightarrow> string \<Rightarrow> string option \<Rightarrow> (bool \<times> sign \<times> string) option \<Rightarrow> py_float" where
  "decimal_float sg ip f ex =
     decimal_to_double (sign_negative sg) (digits_value (ip @ fraction_digits f))
       (exponent_value ex - int (length (fraction_digits f)))"

subsection \<open>\<open>bytes.decode("utf-8")\<close>\<close>

text \<open>
  The strict UTF-8 decoder accepts the well-formed byte sequences of the Unicode
  standard: no overlong form, no surrogate, nothing above U+10FFFF.
\<close>

definition cont :: "nat \<Rightarrow> bool" where
  "cont b = (0x80 \<le> b \<and> b \<le> 0xBF)"

fun utf8_valid :: "nat list \<Rightarrow> bool" where
  "utf8_valid [] = True"
| "utf8_valid (b0 # bs) =
     (if b0 < 0x80 then utf8_valid bs
      else if 0xC2 \<le> b0 \<and> b0 \<le> 0xDF then
        (case bs of b1 # r \<Rightarrow> cont b1 \<and> utf8_valid r | _ \<Rightarrow> False)
      else if 0xE0 \<le> b0 \<and> b0 \<le> 0xEF then
        (case bs of
           b1 # b2 # r \<Rightarrow>
             (if b0 = 0xE0 then 0xA0 \<le> b1 \<and> b1 \<le> 0xBF
              else if b0 = 0xED then 0x80 \<le> b1 \<and> b1 \<le> 0x9F
              else cont b1) \<and> cont b2 \<and> utf8_valid r
         | _ \<Rightarrow> False)
      else if 0xF0 \<le> b0 \<and> b0 \<le> 0xF4 then
        (case bs of
           b1 # b2 # b3 # r \<Rightarrow>
             (if b0 = 0xF0 then 0x90 \<le> b1 \<and> b1 \<le> 0xBF
              else if b0 = 0xF4 then 0x80 \<le> b1 \<and> b1 \<le> 0x8F
              else cont b1) \<and> cont b2 \<and> cont b3 \<and> utf8_valid r
         | _ \<Rightarrow> False)
      else False)"

definition decode_utf8 :: "bytes \<Rightarrow> error + string" where
  "decode_utf8 b = (if utf8_valid (map of_char b) then Inr b else Inl UnicodeDecodeError)"

section \<open>The serial transport\<close>

text \<open>
  Modelled from the spec: the transport is the \<open>serial.Serial\<close> class of the pyserial
  library, which is not part of the repository. The specification gives its interface as
  \<open>open\<close>, \<open>write(bytes)\<close>, \<open>read_chunk() -> bytes\<close> (empty when no data arrives within
  the timeout) and \<open>close()\<close>.

  The state of a port records what the driver did to it (\<open>written\<close>, one entry per call of
  \<open>write\<close>; \<open>read_calls\<close>; \<open>close_calls\<close>) and what the device will answer: \<open>incoming\<close> is
  the result of every future read attempt, the empty chunk standing for a read that timed
  out. Writing to or reading from a port that is not open raises, as pyserial does.
\<close>

record transport =
  is_open :: bool
  close_calls :: nat
  written :: "bytes list"
  read_calls :: nat
  incoming :: "bytes stream"

definition Serial :: "bytes stream \<Rightarrow> transport" where
  "Serial device =
     \<lparr>is_open = True, close_calls = 0, written = [], read_calls = 0, incoming = device\<rparr>"

definition serial_write :: "transport \<Rightarrow> bytes \<Rightarrow> (error + nat) \<times> transport" where
  "serial_write t data =
     (if is_open t then (Inr (length data), t\<lparr>written := written t @ [data]\<rparr>)
      else (Inl SerialException, t))"

definition serial_read :: "transport \<Rightarrow> (error + bytes) \<times> transport" where
  "serial_read t =
     (if is_open t
      then (Inr (shd (incoming t)),
            t\<lparr>read_calls := Suc (read_calls t), incoming := stl (incoming t)\<rparr>)
      else (Inl SerialException, t))"

definition serial_close :: "transport \<Rightarrow> transport" where
  "serial_close t = t\<lparr>is_open := False, close_calls := Suc (close_calls t)\<rparr>"

section \<open>The transaction engine\<close>

text \<open>
  The loop of \<open>_execute_command\<close>:
  \<^verbatim>\<open>
        while True:
            byte = self._serial_port.read()
            if byte:
                data.extend(byte)
            else:
                break
  \<close>
  It runs for as long as the port keeps delivering bytes, so it is a partial function:
  \<open>None\<close> is the run that never leaves the loop.
\<close>

partial_function (option) read_loop ::
  "transport \<Rightarrow> bytes \<Rightarrow> ((error + bytes) \<times> transport) option" where
  "read_loop t data =
     (case serial_read t of
        (Inl e, t') \<Rightarrow> Some (Inl e, t')
      | (Inr byte, t') \<Rightarrow>
          if byte \<noteq> [] then read_loop t' (data @ byte) else Some (Inr data, t'))"

definition perform_bug_workarounds :: "bytes \<Rightarrow> bytes \<Rightarrow> bytes" where
  "perform_bug_workarounds command data =
     (if command = ''ISET1?'' \<and> length data = 6 then butlast data else data)"

text \<open>
  A connection object: its port and its cached identity. \<open>ps_id\<close> is \<open>None\<close> while the
  attribute \<open>_id\<close> is not yet assigned, which is the case during \<open>__init__\<close> only.
\<close>

record power_supply =
  serial_port :: transport
  ps_id :: "py_value option"

text \<open>
  A method call returns a value or raises, and leaves the object in a new state; \<open>None\<close>
  is the call that never returns.
\<close>

type_synonym outcome = "((error + py_value) \<times> power_supply) option"

definition decode_response :: "bytes \<Rightarrow> error + py_value" where
  "decode_response response =
     (case float_of_bytes response of
        Some x \<Rightarrow> Inr (PyFloat x)
      | None \<Rightarrow>
          (case decode_utf8 response of
             Inl e \<Rightarrow> Inl e
           | Inr s \<Rightarrow> Inr (PyStr s)))"

definition execute_command :: "power_supply \<Rightarrow> bytes \<Rightarrow> bool \<Rightarrow> outcome" where
  "execute_command self command decode =
     (case serial_write (serial_port self) command of
        (Inl e, t) \<Rightarrow> Some (Inl e, self\<lparr>serial_port := t\<rparr>)
      | (Inr _, t) \<Rightarrow>
          (case read_loop t [] of
             None \<Rightarrow> None
           | Some (Inl e, t') \<Rightarrow> Some (Inl e, self\<lparr>serial_port := t'\<rparr>)
           | Some (Inr data, t') \<Rightarrow>
               (let data' = perform_bug_workarounds command data;
                    self' = self\<lparr>serial_port := t'\<rparr>
                in if decode
                   then (case decode_response data' of
                           Inl e \<Rightarrow> Some (Inl e, self')
                         | Inr v \<Rightarrow> Some (Inr v, self'))
                   else Some (Inr (PyBytes data'), self'))))"

section \<open>The command wrappers\<close>

text \<open>
  A method that calls the engine as a statement and ends without \<open>return\<close> gives \<open>None\<close>
  to its caller; an exception of the engine goes through it.
\<close>

definition return_none :: "outcome \<Rightarrow> outcome" where
  "return_none r =
     (case r of
        None \<Rightarrow> None
      | Some (Inl e, self') \<Rightarrow> Some (Inl e, self')
      | Some (Inr _, self') \<Rightarrow> Some (Inr PyNone, self'))"

text \<open>
  The text that \<open>'{}'.format(x)\<close> gives for a value is a parameter \<open>fmt\<close> of the methods
  that format an argument.
\<close>

definition set_output_voltage ::
  "(py_value \<Rightarrow> string) \<Rightarrow> power_supply \<Rightarrow> py_float \<Rightarrow> outcome" where
  "set_output_voltage fmt self voltage =
     (if \<not> float_le (Finite 0.0) voltage then Some (Inl AssertionError, self)
      else if \<not> float_le voltage (Finite 30.0) then Some (Inl AssertionError, self)
      else (let command_str = ''VSET1:'' @ fmt (PyFloat voltage);
                command = encode_utf8 command_str
            in return_none (execute_command self command True)))"

definition get_requested_output_voltage :: "power_supply \<Rightarrow> outcome" where
  "get_requested_output_voltage self =
     (let command = encode_utf8 ''VSET1?'' in execute_command self command True)"

definition get_output_voltage :: "power_supply \<Rightarrow> outcome" where
  "get_output_voltage self =
     (let command = encode_utf8 ''VOUT1?'' in execute_command self command True)"

definition set_output_current ::
  "(py_value \<Rightarrow> string) \<Rightarrow> power_supply \<Rightarrow> py_float \<Rightarrow> outcome" where
  "set_output_current fmt self current =
     (if \<not> float_le (Finite 0.0) current then Some (Inl AssertionError, self)
      else if \<not> float_le current (Finite 5.0) then Some (Inl AssertionError, self)
      else (let command_str = ''ISET1:'' @ fmt (PyFloat current);
                command = encode_utf8 command_str
            in return_none (execute_command self command True)))"

definition get_output_current :: "power_supply \<Rightarrow> outcome" where
  "get_output_current self =
     (let command = encode_utf8 ''IOUT1?'' in execute_command self command True)"

definition get_requested_output_current :: "power_supply \<Rightarrow> outcome" where
  "get_requested_output_current self =
     (let command = encode_utf8 ''ISET1?'' in execute_command self command True)"

definition recall_from_memory ::
  "(py_value \<Rightarrow> string) \<Rightarrow> power_supply \<Rightarrow> int \<Rightarrow> outcome" where
  "recall_from_memory fmt self index =
     (if \<not> index \<ge> 1 then Some (Inl AssertionError, self)
      else if \<not> index \<le> 5 then Some (Inl AssertionError, self)
      else (let command_str = ''RCL'' @ fmt (PyInt index);
                command = encode_utf8 command_str
            in return_none (execute_command self command True)))"

definition save_to_memory ::
  "(py_value \<Rightarrow> string) \<Rightarrow> power_supply \<Rightarrow> int \<Rightarrow> outcome" where
  "save_to_memory fmt self index =
     (if \<not> index \<ge> 1 then Some (Inl AssertionError, self)
      else if \<not> index \<le> 5 then Some (Inl AssertionError, self)
      else (let command_str = ''SAV'' @ fmt (PyInt index);
                command = encode_utf8 command_str
            in return_none (execute_command self command True)))"

definition enable_output :: "power_supply \<Rightarrow> bool \<Rightarrow> outcome" where
  "enable_output self enable =
     (let command_str = (if enable then ''OUT1'' else ''OUT0'');
          command = encode_utf8 command_str
      in return_none (execute_command self command True))"

definition enable_over_voltage_protection :: "power_supply \<Rightarrow> bool \<Rightarrow> outcome" where
  "enable_over_voltage_protection self enable =
     (let command_str = (if enable then ''OVP1'' else ''OVP0'');
          command = encode_utf8 command_str
      in return_none (execute_command self command True))"

definition enable_over_current_protection :: "power_supply \<Rightarrow> bool \<Rightarrow> outcome" where
  "enable_over_current_protection self enable =
     (let command_str = (if enable then ''OCP1'' else ''OCP0'');
          command = encode_utf8 command_str
      in return_none (execute_command self command True))"

definition get_id :: "power_supply \<Rightarrow> outcome" where
  "get_id self = (let command = encode_utf8 ''*IDN?'' in execute_command self command True)"

definition get_identification :: "power_supply \<Rightarrow> outcome" where
  "get_identification self =
     (case ps_id self of
        None \<Rightarrow> Some (Inl AttributeError, self)
      | Some v \<Rightarrow> Some (Inr v, self))"

section \<open>The status byte\<close>

definition OUTPUT_ENABLED_MASK :: int where
  "OUTPUT_ENABLED_MASK = 0x40"

definition OVER_CURRENT_PROTECTION_ENABLED_MASK :: int where
  "OVER_CURRENT_PROTECTION_ENABLED_MASK = 0x20"

definition OVER_VOLTAGE_PROTECTION_ENABLED_MASK :: int where
  "OVER_VOLTAGE_PROTECTION_ENABLED_MASK = 0x80"

definition CC_CV_MASK :: int where
  "CC_CV_MASK = 0x01"

text \<open>
  The engine called with \<open>decode=False\<close> returns a bytearray. Indexing an empty one raises
  \<open>IndexError\<close>; the branches for the other values are the ones Python would take for them.
\<close>

definition is_output_enabled :: "power_supply \<Rightarrow> outcome" where
  "is_output_enabled self =
     (let command = encode_utf8 ''STATUS?'' in
      case execute_command self command False of
        None \<Rightarrow> None
      | Some (Inl e, self') \<Rightarrow> Some (Inl e, self')
      | Some (Inr v, self') \<Rightarrow>
          (case v of
             PyBytes data \<Rightarrow>
               (case data of
                  [] \<Rightarrow> Some (Inl IndexError, self')
                | b # _ \<Rightarrow>
                    Some (Inr (PyBool ((of_char b :: int) AND OUTPUT_ENABLED_MASK \<noteq> 0)), self'))
           | _ \<Rightarrow> Some (Inl TypeError, self')))"

function is_protection_enabled_loop :: "power_supply \<Rightarrow> int \<Rightarrow> nat \<Rightarrow> outcome" where
  "is_protection_enabled_loop self mask' counter =
     (if counter < 3
      then (case execute_command self (encode_utf8 ''STATUS?'') False of
              None \<Rightarrow> None
            | Some (Inl e, self') \<Rightarrow> Some (Inl e, self')
            | Some (Inr v, self') \<Rightarrow>
                (case v of
                   PyBytes data \<Rightarrow>
                     if length data = 1
                     then Some (Inr (PyBool ((of_char (data ! 0) :: int) AND mask' \<noteq> 0)), self')
                     else is_protection_enabled_loop self' mask' (counter + 1)
                 | _ \<Rightarrow> Some (Inl TypeError, self')))
      else Some (Inr (PyBool False), self))"
  by pat_completeness auto
termination
  by (relation "measure (\<lambda>(self, mask', counter). 3 - counter)") auto

declare is_protection_enabled_loop.simps [simp del]

definition is_protection_enabled :: "power_supply \<Rightarrow> int \<Rightarrow> outcome" where
  "is_protection_enabled self mask' = is_protection_enabled_loop self mask' 0"

definition is_over_voltage_protection_enabled :: "power_supply \<Rightarrow> outcome" where
  "is_over_voltage_protection_enabled self =
     is_protection_enabled self OVER_VOLTAGE_PROTECTION_ENABLED_MASK"

definition is_over_current_protection_enabled :: "power_supply \<Rightarrow> outcome" where
  "is_over_current_protection_enabled self =
     is_protection_enabled self OVER_CURRENT_PROTECTION_ENABLED_MASK"

section \<open>The lifetime of a connection object\<close>

text \<open>
  \<open>__init__\<close> opens the port and asks for the identity. When the identity request raises,
  so does \<open>__init__\<close>: no object is made, and the port is left as the request left it.
\<close>

definition PowerSupply_init :: "bytes stream \<Rightarrow> (error \<times> transport + power_supply) option" where
  "PowerSupply_init device =
     (let self = \<lparr>serial_port = Serial device, ps_id = None\<rparr> in
      case get_id self of
        None \<Rightarrow> None
      | Some (Inl e, self') \<Rightarrow> Some (Inl (e, serial_port self'))
      | Some (Inr v, self') \<Rightarrow> Some (Inr (self'\<lparr>ps_id := Some v\<rparr>)))"

definition PowerSupply_str :: "(py_value \<Rightarrow> string) \<Rightarrow> power_supply \<Rightarrow> outcome" where
  "PowerSupply_str fmt self =
     (case get_identification self of
        None \<Rightarrow> None
      | Some (Inl e, self') \<Rightarrow> Some (Inl e, self')
      | Some (Inr v, self') \<Rightarrow> Some (Inr (PyStr (''<PowerSupply> '' @ fmt v)), self'))"

definition PowerSupply_enter :: "power_supply \<Rightarrow> power_supply" where
  "PowerSupply_enter self = self"

definition PowerSupply_exit :: "power_supply \<Rightarrow> outcome" where
  "PowerSupply_exit self =
     Some (Inr PyNone, self\<lparr>serial_port := serial_close (serial_port self)\<rparr>)"

text \<open>
  The calls a client can make on a connection object, and a client that makes a list of
  them in turn, going on after a call that raised.
\<close>

datatype call =
    SetOutputVoltage py_float
  | GetRequestedOutputVoltage
  | GetOutputVoltage
  | SetOutputCurrent py_float
  | GetOutputCurrent
  | GetRequestedOutputCurrent
  | RecallFromMemory int
  | SaveToMemory int
  | EnableOutput bool
  | EnableOverVoltageProtection bool
  | EnableOverCurrentProtection bool
  | GetIdentification
  | IsOutputEnabled
  | IsOverVoltageProtectionEnabled
  | IsOverCurrentProtectionEnabled
  | Str
  | Exit

fun call_method :: "(py_value \<Rightarrow> string) \<Rightarrow> power_supply \<Rightarrow> call \<Rightarrow> outcome" where
  "call_method fmt self (SetOutputVoltage v) = set_output_voltage fmt self v"
| "call_method fmt self GetRequestedOutputVoltage = get_requested_output_voltage self"
| "call_method fmt self GetOutputVoltage = get_output_voltage self"
| "call_method fmt self (SetOutputCurrent c) = set_output_current fmt self c"
| "call_method fmt self GetOutputCurrent = get_output_current self"
| "call_method fmt self GetRequestedOutputCurrent = get_requested_output_current self"
| "call_method fmt self (RecallFromMemory i) = recall_from_memory fmt self i"
| "call_method fmt self (SaveToMemory i) = save_to_memory fmt self i"
| "call_method fmt self (EnableOutput b) = enable_output self b"
| "call_method fmt self (EnableOverVoltageProtection b) = enable_over_voltage_protection self b"
| "call_method fmt self (EnableOverCurrentProtection b) = enable_over_current_protection self b"
| "call_method fmt self GetIdentification = get_identification self"
| "call_method fmt self IsOutputEnabled = is_output_enabled self"
| "call_method fmt self IsOverVoltageProtectionEnabled = is_over_voltage_protection_enabled self"
| "call_method fmt self IsOverCurrentProtectionEnabled = is_over_current_protection_enabled self"
| "call_method fmt self Str = PowerSupply_str fmt self"
| "call_method fmt self Exit = PowerSupply_exit self"

fun run_calls ::
  "(py_value \<Rightarrow> string) \<Rightarrow> power_supply \<Rightarrow> call list \<Rightarrow>
     ((error + py_value) list \<times> power_supply) option" where
  "run_calls fmt self [] = Some ([], self)"
| "run_calls fmt self (c # cs) =
     (case call_method fmt self c of
        None \<Rightarrow> None
      | Some (r, self') \<Rightarrow>
          (case run_calls fmt self' cs of
             None \<Rightarrow> None
           | Some (rs, self'') \<Rightarrow> Some (r # rs, self'')))"

section \<open>Facts about the read loop\<close>

lemma read_loop_idle:
  assumes "is_open t" and "incoming t !! n = []" and "\<forall>k<n. incoming t !! k \<noteq> []"
  shows "read_loop t data =
           Some (Inr (data @ concat (stake n (incoming t))),
                 t\<lparr>read_calls := read_calls t + Suc n,
                   incoming := sdrop (Suc n) (incoming t)\<rparr>)"
  using assms
proof (induction n arbitrary: t data)
  case 0
  then show ?case
    by (subst read_loop.simps) (simp add: serial_read_def)
next
  case (Suc n)
  let ?t' = "t\<lparr>read_calls := Suc (read_calls t), incoming := stl (incoming t)\<rparr>"
  from Suc.prems have hd_ne: "shd (incoming t) \<noteq> []"
    by (metis snth.simps(1) zero_less_Suc)
  have "is_open ?t'" using Suc.prems by simp
  moreover have "incoming ?t' !! n = []" using Suc.prems by simp
  moreover have "\<forall>k<n. incoming ?t' !! k \<noteq> []"
  proof (intro allI impI)
    fix k assume "k < n"
    then have "incoming t !! Suc k \<noteq> []" using Suc.prems by auto
    then show "incoming ?t' !! k \<noteq> []" by simp
  qed
  ultimately have IH: "read_loop ?t' (data @ shd (incoming t)) =
      Some (Inr ((data @ shd (incoming t)) @ concat (stake n (incoming ?t'))),
            ?t'\<lparr>read_calls := read_calls ?t' + Suc n,
                incoming := sdrop (Suc n) (incoming ?t')\<rparr>)"
    by (rule Suc.IH)
  show ?case
    by (subst read_loop.simps) (simp add: serial_read_def Suc.prems hd_ne IH)
qed


lemma read_loop_Some:
  assumes "read_loop t data = Some y"
  shows "is_open (snd y) = is_open t \<and> close_calls (snd y) = close_calls t
         \<and> written (snd y) = written t
         \<and> (\<forall>e. fst y = Inl e \<longrightarrow> e = SerialException \<and> \<not> is_open t)
         \<and> (is_open t \<longrightarrow> (\<exists>n. incoming t !! n = []))"
  using assms
proof (induct t data y rule: read_loop.raw_induct[rotated 1, consumes 1])
  case (1 read_loop t data y)
  show ?case
  proof (cases "is_open t")
    case False
    with 1(2) show ?thesis by (auto simp: serial_read_def)
  next
    case True
    show ?thesis
    proof (cases "shd (incoming t) = []")
      case e: True
      then have "incoming t !! 0 = []" by simp
      then have "\<exists>n. incoming t !! n = []" by blast
      with e True 1(2) show ?thesis
        by (auto simp: serial_read_def)
    next
      case ne: False
      let ?t1 = "t\<lparr>read_calls := Suc (read_calls t), incoming := stl (incoming t)\<rparr>"
      from True ne 1(2) have "read_loop ?t1 (data @ shd (incoming t)) = Some y"
        by (simp add: serial_read_def)
      from 1(1)[OF this] have IH: "is_open (snd y) = is_open ?t1"
        "close_calls (snd y) = close_calls ?t1" "written (snd y) = written ?t1"
        "\<forall>e. fst y = Inl e \<longrightarrow> e = SerialException \<and> \<not> is_open ?t1"
        "is_open ?t1 \<longrightarrow> (\<exists>n. incoming ?t1 !! n = [])"
        by blast+
      from IH(5) True obtain n where "stl (incoming t) !! n = []" by auto
      then have "incoming t !! Suc n = []" by simp
      then have "\<exists>n. incoming t !! n = []" by blast
      with IH show ?thesis by simp
    qed
  qed
qed

lemma read_loop_never_idle:
  assumes "is_open t" and "\<forall>n. incoming t !! n \<noteq> []"
  shows "read_loop t data = None"
proof (cases "read_loop t data")
  case None
  then show ?thesis .
next
  case (Some y)
  from read_loop_Some[OF Some] assms show ?thesis by blast
qed

lemma sum_case_Some: "(case x of Inl e \<Rightarrow> Some (Inl e, s) | Inr v \<Rightarrow> Some (Inr v, s)) = Some (x, s)"
  by (cases x) simp_all

lemma execute_command_closed:
  assumes "\<not> is_open (serial_port self)"
  shows "execute_command self command decode = Some (Inl SerialException, self)"
  using assms by (simp add: execute_command_def serial_write_def)

lemma execute_command_idle:
  assumes "is_open (serial_port self)"
      and "incoming (serial_port self) !! n = []"
      and "\<forall>k<n. incoming (serial_port self) !! k \<noteq> []"
  shows "execute_command self command decode =
           Some (if decode
                 then decode_response (perform_bug_workarounds command
                        (concat (stake n (incoming (serial_port self)))))
                 else Inr (PyBytes (perform_bug_workarounds command
                        (concat (stake n (incoming (serial_port self)))))),
                 self\<lparr>serial_port := (serial_port self)
                   \<lparr>written := written (serial_port self) @ [command],
                    read_calls := read_calls (serial_port self) + Suc n,
                    incoming := sdrop (Suc n) (incoming (serial_port self))\<rparr>\<rparr>)"
proof -
  let ?t = "(serial_port self)\<lparr>written := written (serial_port self) @ [command]\<rparr>"
  have "read_loop ?t [] =
          Some (Inr ([] @ concat (stake n (incoming ?t))),
                ?t\<lparr>read_calls := read_calls ?t + Suc n,
                    incoming := sdrop (Suc n) (incoming ?t)\<rparr>)"
    by (rule read_loop_idle) (use assms in simp_all)
  then show ?thesis
    using assms(1)
    by (simp add: execute_command_def serial_write_def Let_def sum_case_Some)
qed

lemma execute_command_Some:
  assumes "execute_command self command decode = Some (r, self')"
  shows "ps_id self' = ps_id self"
    and "is_open (serial_port self') = is_open (serial_port self)"
    and "close_calls (serial_port self') = close_calls (serial_port self)"
    and "is_open (serial_port self) \<Longrightarrow>
           written (serial_port self') = written (serial_port self) @ [command]"
    and "\<not> is_open (serial_port self) \<Longrightarrow> self' = self \<and> r = Inl SerialException"
    and "r = Inl e \<Longrightarrow> e = SerialException \<and> \<not> is_open (serial_port self)
                        \<or> e = UnicodeDecodeError \<and> decode"
    and "\<not> decode \<Longrightarrow> r = Inr v \<Longrightarrow> \<exists>d. v = PyBytes d"
proof -
  show "\<not> is_open (serial_port self) \<Longrightarrow> self' = self \<and> r = Inl SerialException"
    using assms by (simp add: execute_command_closed)
  show "ps_id self' = ps_id self"
    using assms
    by (auto simp: execute_command_def serial_write_def Let_def
             split: if_splits option.splits sum.splits prod.splits)
  have *: "is_open (serial_port self') = is_open (serial_port self)
        \<and> close_calls (serial_port self') = close_calls (serial_port self)
        \<and> (is_open (serial_port self) \<longrightarrow>
           written (serial_port self') = written (serial_port self) @ [command])"
    using assms
    by (auto simp: execute_command_def serial_write_def Let_def
             split: if_splits option.splits sum.splits prod.splits
             dest!: read_loop_Some)
  then show "is_open (serial_port self') = is_open (serial_port self)"
    and "close_calls (serial_port self') = close_calls (serial_port self)"
    and "is_open (serial_port self) \<Longrightarrow>
           written (serial_port self') = written (serial_port self) @ [command]"
    by simp_all
  show "r = Inl e \<Longrightarrow> e = SerialException \<and> \<not> is_open (serial_port self)
                        \<or> e = UnicodeDecodeError \<and> decode"
    using assms
    by (auto simp: execute_command_def serial_write_def Let_def decode_response_def decode_utf8_def
             split: if_splits option.splits sum.splits prod.splits
             dest!: read_loop_Some)
  show "\<not> decode \<Longrightarrow> r = Inr v \<Longrightarrow> \<exists>d. v = PyBytes d"
    using assms
    by (auto simp: execute_command_def serial_write_def Let_def
             split: if_splits option.splits sum.splits prod.splits)
qed


section \<open>The transaction engine: one write, then reads until the port is idle\<close>

text \<open>
  C1. One call of \<open>_execute_command\<close> on an open port writes the command once and then
  reads: when the first read attempt that returns no byte is attempt \<open>n\<close> (counted
  from 0), the loop stops there, after \<open>n + 1\<close> read attempts, and the accumulated buffer
  is the concatenation of the \<open>n\<close> chunks read before it. The log of writes has grown by
  the command and nothing else, whatever the response.
\<close>

theorem execute_command_one_write_then_drain:
  assumes "is_open (serial_port self)"
      and "incoming (serial_port self) !! n = []"
      and "\<forall>k<n. incoming (serial_port self) !! k \<noteq> []"
  shows "read_loop ((serial_port self)\<lparr>written := written (serial_port self) @ [command]\<rparr>) [] =
           Some (Inr (concat (stake n (incoming (serial_port self)))),
                 (serial_port self)
                   \<lparr>written := written (serial_port self) @ [command],
                    read_calls := read_calls (serial_port self) + Suc n,
                    incoming := sdrop (Suc n) (incoming (serial_port self))\<rparr>)
         \<and> execute_command self command decode =
           Some (if decode
                 then decode_response (perform_bug_workarounds command
                        (concat (stake n (incoming (serial_port self)))))
                 else Inr (PyBytes (perform_bug_workarounds command
                        (concat (stake n (incoming (serial_port self)))))),
                 self\<lparr>serial_port := (serial_port self)
                   \<lparr>written := written (serial_port self) @ [command],
                    read_calls := read_calls (serial_port self) + Suc n,
                    incoming := sdrop (Suc n) (incoming (serial_port self))\<rparr>\<rparr>)"
proof
  let ?t = "(serial_port self)\<lparr>written := written (serial_port self) @ [command]\<rparr>"
  have "read_loop ?t [] =
          Some (Inr ([] @ concat (stake n (incoming ?t))),
                ?t\<lparr>read_calls := read_calls ?t + Suc n,
                    incoming := sdrop (Suc n) (incoming ?t)\<rparr>)"
    by (rule read_loop_idle) (use assms in simp_all)
  then show "read_loop ?t [] =
           Some (Inr (concat (stake n (incoming (serial_port self)))),
                 (serial_port self)
                   \<lparr>written := written (serial_port self) @ [command],
                    read_calls := read_calls (serial_port self) + Suc n,
                    incoming := sdrop (Suc n) (incoming (serial_port self))\<rparr>)"
    by simp
next
  show "execute_command self command decode =
           Some (if decode
                 then decode_response (perform_bug_workarounds command
                        (concat (stake n (incoming (serial_port self)))))
                 else Inr (PyBytes (perform_bug_workarounds command
                        (concat (stake n (incoming (serial_port self)))))),
                 self\<lparr>serial_port := (serial_port self)
                   \<lparr>written := written (serial_port self) @ [command],
                    read_calls := read_calls (serial_port self) + Suc n,
                    incoming := sdrop (Suc n) (incoming (serial_port self))\<rparr>\<rparr>)"
    using assms by (rule execute_command_idle)
qed

text \<open>
  A device that sends \<open>12\<close>, then \<open>.5\<close>, then nothing: the call writes \<open>VOUT1?\<close> once,
  makes three read attempts and returns the five bytes \<open>12.5\<close>.
\<close>

theorem execute_command_one_write_then_drain_witness:
  "execute_command
     \<lparr>serial_port = Serial (''12'' ## ''.5'' ## [] ## sconst ''X''), ps_id = None\<rparr>
     ''VOUT1?'' False =
   Some (Inr (PyBytes ''12.5''),
         \<lparr>serial_port =
            \<lparr>is_open = True, close_calls = 0, written = [''VOUT1?''], read_calls = 3,
             incoming = sconst ''X''\<rparr>,
          ps_id = None\<rparr>)"
  using execute_command_one_write_then_drain
          [of "\<lparr>serial_port = Serial (''12'' ## ''.5'' ## [] ## sconst ''X''), ps_id = None\<rparr>"
              2 "''VOUT1?''" False]
  by (simp add: Serial_def perform_bug_workarounds_def numeral_2_eq_2 less_Suc_eq)

section \<open>The workaround for the extra byte\<close>

text \<open>
  C2. The workaround returns the first five bytes of the response when the command is
  \<open>b'ISET1?'\<close> and the response has exactly six bytes, and the response unchanged for
  every other command and every other length.
\<close>

theorem perform_bug_workarounds_spec:
  "perform_bug_workarounds c d = (if c = ''ISET1?'' \<and> length d = 6 then take 5 d else d)"
  by (simp add: perform_bug_workarounds_def butlast_conv_take)

theorem perform_bug_workarounds_spec_witness:
  "perform_bug_workarounds ''ISET1?'' ''1.500K'' = ''1.500''
   \<and> perform_bug_workarounds ''VSET1?'' ''1.500K'' = ''1.500K''
   \<and> perform_bug_workarounds ''ISET1?'' ''1.500'' = ''1.500''"
  using perform_bug_workarounds_spec [of "''ISET1?''" "''1.500K''"]
        perform_bug_workarounds_spec [of "''VSET1?''" "''1.500K''"]
        perform_bug_workarounds_spec [of "''ISET1?''" "''1.500''"]
  by simp


section \<open>The response decoder\<close>

lemma is_space_plain: "is_space c \<Longrightarrow> \<not> is_digit c \<and> c \<noteq> CHR ''_''"
  by (auto simp: is_space_def is_digit_def)

lemma strip_underscores_prev:
  "\<not> is_digit p \<Longrightarrow> p \<noteq> CHR ''_'' \<Longrightarrow> \<not> is_digit q \<Longrightarrow> q \<noteq> CHR ''_'' \<Longrightarrow>
     strip_underscores p xs = strip_underscores q xs"
  by (cases xs) auto

lemma strip_underscores_spaces:
  "list_all is_space t \<Longrightarrow> p \<noteq> CHR ''_'' \<Longrightarrow> strip_underscores p t = Some t"
  by (induction t arbitrary: p) (auto dest: is_space_plain)

lemma strip_underscores_leading:
  "list_all is_space l \<Longrightarrow> \<not> is_digit p \<Longrightarrow> p \<noteq> CHR ''_'' \<Longrightarrow>
     strip_underscores p (l @ xs) = map_option ((@) l) (strip_underscores p xs)"
proof (induction l arbitrary: p)
  case Nil
  then show ?case by (simp add: option.map_ident)
next
  case (Cons c l)
  then have c: "\<not> is_digit c" "c \<noteq> CHR ''_''" and l: "list_all is_space l"
    by (auto dest: is_space_plain)
  have "strip_underscores c (l @ xs) = map_option ((@) l) (strip_underscores c xs)"
    using l c by (rule Cons.IH)
  moreover have "strip_underscores c xs = strip_underscores p xs"
    using c Cons.prems(2,3) by (rule strip_underscores_prev)
  ultimately show ?case
    using c Cons.prems(3) by (simp add: option.map_comp comp_def)
qed

lemma strip_underscores_trailing:
  "strip_underscores p r = Some r' \<Longrightarrow> list_all is_space t \<Longrightarrow>
     strip_underscores p (r @ t) = Some (r' @ t)"
proof (induction r arbitrary: p r')
  case Nil
  then show ?case by (auto simp: strip_underscores_spaces split: if_splits)
next
  case (Cons c cs)
  then show ?case by (auto split: if_splits)
qed

lemma dropWhile_all: "list_all P xs \<Longrightarrow> dropWhile P (xs @ ys) = dropWhile P ys"
  by (induction xs) auto

lemma float_from_string_inner_padded:
  assumes "float_from_string_inner s = Some x"
      and "list_all is_space l" and "list_all is_space t"
  shows "float_from_string_inner (l @ s @ t) = Some x"
proof -
  let ?u = "dropWhile is_space s"
  from assms(1) have ne: "?u \<noteq> []"
    by (auto simp: float_from_string_inner_def Let_def split: if_splits)
  then have ex: "\<exists>c\<in>set s. \<not> is_space c"
    by (metis dropWhile_eq_Nil_conv)
  from ex obtain c where "c \<in> set s" "\<not> is_space c" by blast
  then have "dropWhile is_space (s @ t) = ?u @ t" by (rule dropWhile_append1)
  then have 1: "dropWhile is_space (l @ s @ t) = ?u @ t"
    using assms(2) by (simp add: dropWhile_all)
  have 2: "dropWhile is_space (rev t @ rev ?u) = dropWhile is_space (rev ?u)"
    using assms(3) by (simp add: dropWhile_all)
  show ?thesis
    using assms(1) ne by (simp add: float_from_string_inner_def Let_def 1 2 split: if_splits)
qed

lemma float_of_bytes_padded:
  assumes "float_of_bytes r = Some x"
      and "list_all is_space l" and "list_all is_space t"
  shows "float_of_bytes (l @ r @ t) = Some x"
proof -
  from assms(1) obtain s where s: "strip_underscores (CHR 0x00) r = Some s"
    and f: "float_from_string_inner s = Some x"
    by (auto simp: float_of_bytes_def split: option.splits)
  have "strip_underscores (CHR 0x00) (r @ t) = Some (s @ t)"
    using s assms(3) by (rule strip_underscores_trailing)
  moreover have "strip_underscores (CHR 0x00) (l @ r @ t)
      = map_option ((@) l) (strip_underscores (CHR 0x00) (r @ t))"
    using assms(2) by (rule strip_underscores_leading) (simp_all add: is_digit_def)
  ultimately have "strip_underscores (CHR 0x00) (l @ r @ t) = Some (l @ s @ t)"
    by simp
  then show ?thesis
    using float_from_string_inner_padded[OF f assms(2,3)] by (simp add: float_of_bytes_def)
qed


lemma float_12_50: "float_of_bytes ''12.50'' = Some (Finite 12.5)"
  by code_simp

lemma float_0_1:
  "float_of_bytes ''0.1'' = Some (Finite (3602879701896397 / 36028797018963968))"
  by code_simp

lemma float_05_01:
  "float_of_bytes ''05.01'' = Some (Finite (2820379266640773 / 562949953421312))"
  by code_simp

lemma float_1e400: "float_of_bytes ''1e400'' = Some PosInf"
  by code_simp

lemma float_1e_400: "float_of_bytes ''1e-400'' = Some (Finite 0)"
  by code_simp

lemma float_minus_0: "float_of_bytes ''-0.0'' = Some NegZero"
  by code_simp

lemma float_korad: "float_of_bytes ''KORAD KA3005P'' = None"
  by code_simp

lemma float_ff: "float_of_bytes [CHR 0xFF] = None"
  by code_simp

lemma utf8_korad: "utf8_valid (map of_char ''KORAD KA3005P'')"
  by code_simp

lemma utf8_ff: "\<not> utf8_valid (map of_char [CHR 0xFF])"
  by code_simp

lemma float_12_5: "float_of_bytes ''12.5'' = Some (Finite 12.5)"
  by code_simp

lemma float_12_5_nl: "float_of_bytes ''12.5\<newline>'' = Some (Finite 12.5)"
  by code_simp

lemma float_minus: "float_of_bytes ''-12.5'' = Some (Finite (- 12.5))"
  by code_simp

lemma float_plus: "float_of_bytes ''+12.5'' = Some (Finite 12.5)"
  by code_simp

lemma float_1e3: "float_of_bytes ''1e3'' = Some (Finite 1000)"
  by code_simp

lemma float_inf: "float_of_bytes ''inf'' = Some PosInf"
  by code_simp

lemma float_minus_infinity: "float_of_bytes ''-Infinity'' = Some NegInf"
  by code_simp

lemma float_nan: "float_of_bytes ''nan'' = Some NaN"
  by code_simp

lemma decode_response_float: "float_of_bytes r = Some x \<Longrightarrow> decode_response r = Inr (PyFloat x)"
  by (simp add: decode_response_def)

text \<open>
  C3. The decoder returns the number when the bytes parse as a floating-point literal;
  otherwise the bytes as a string, unmodified, when they are valid UTF-8; otherwise it
  raises \<open>UnicodeDecodeError\<close>, and the engine that called it raises the same error to
  its own caller.
\<close>

theorem decode_response_spec:
  "(float_of_bytes r = Some x \<longrightarrow> decode_response r = Inr (PyFloat x))
   \<and> (float_of_bytes r = None \<and> utf8_valid (map of_char r) \<longrightarrow>
        decode_response r = Inr (PyStr r))
   \<and> (float_of_bytes r = None \<and> \<not> utf8_valid (map of_char r) \<longrightarrow>
        decode_response r = Inl UnicodeDecodeError)
   \<and> (float_of_bytes r = None \<and> \<not> utf8_valid (map of_char r)
        \<and> is_open (serial_port self) \<and> incoming (serial_port self) !! n = []
        \<and> (\<forall>k<n. incoming (serial_port self) !! k \<noteq> [])
        \<and> perform_bug_workarounds command (concat (stake n (incoming (serial_port self)))) = r
        \<longrightarrow> (\<exists>self'. execute_command self command True = Some (Inl UnicodeDecodeError, self')))"
proof (intro conjI impI)
  assume "float_of_bytes r = Some x"
  then show "decode_response r = Inr (PyFloat x)"
    by (rule decode_response_float)
next
  assume "float_of_bytes r = None \<and> utf8_valid (map of_char r)"
  then show "decode_response r = Inr (PyStr r)"
    by (simp add: decode_response_def decode_utf8_def)
next
  assume "float_of_bytes r = None \<and> \<not> utf8_valid (map of_char r)"
  then show "decode_response r = Inl UnicodeDecodeError"
    by (simp add: decode_response_def decode_utf8_def)
next
  assume a: "float_of_bytes r = None \<and> \<not> utf8_valid (map of_char r)
        \<and> is_open (serial_port self) \<and> incoming (serial_port self) !! n = []
        \<and> (\<forall>k<n. incoming (serial_port self) !! k \<noteq> [])
        \<and> perform_bug_workarounds command (concat (stake n (incoming (serial_port self)))) = r"
  then have d: "decode_response r = Inl UnicodeDecodeError"
    by (simp add: decode_response_def decode_utf8_def)
  from a have "is_open (serial_port self)" "incoming (serial_port self) !! n = []"
    "\<forall>k<n. incoming (serial_port self) !! k \<noteq> []"
    by simp_all
  from execute_command_idle[OF this, of command True] a d
  show "\<exists>self'. execute_command self command True = Some (Inl UnicodeDecodeError, self')"
    by simp
qed

text \<open>
  The three cases on \<open>b"12.50"\<close>, on \<open>b"KORAD KA3005P"\<close> and on the single byte \<open>0xFF\<close>,
  which is not UTF-8; a device that answers the identity request with that byte makes the
  engine raise. The number returned is the float: \<open>b"0.1"\<close> and \<open>b"05.01"\<close> give the
  binary64 numbers nearest to 0.1 and 5.01, \<open>b"1e400"\<close> the infinity, \<open>b"1e-400"\<close> the
  zero and \<open>b"-0.0"\<close> the negative zero.
\<close>

theorem decode_response_spec_witness:
  "decode_response ''12.50'' = Inr (PyFloat (Finite 12.5))
   \<and> decode_response ''KORAD KA3005P'' = Inr (PyStr ''KORAD KA3005P'')
   \<and> decode_response [CHR 0xFF] = Inl UnicodeDecodeError
   \<and> (\<exists>self'. execute_command
                  \<lparr>serial_port = Serial ([CHR 0xFF] ## [] ## sconst []), ps_id = None\<rparr>
                  ''*IDN?'' True = Some (Inl UnicodeDecodeError, self'))
   \<and> decode_response ''0.1'' = Inr (PyFloat (Finite (3602879701896397 / 36028797018963968)))
   \<and> decode_response ''05.01'' = Inr (PyFloat (Finite (2820379266640773 / 562949953421312)))
   \<and> decode_response ''1e400'' = Inr (PyFloat PosInf)
   \<and> decode_response ''1e-400'' = Inr (PyFloat (Finite 0))
   \<and> decode_response ''-0.0'' = Inr (PyFloat NegZero)"
  using decode_response_spec [where r = "''12.50''" and x = "Finite 12.5"]
        decode_response_spec [where r = "''KORAD KA3005P''"]
        decode_response_spec
          [where r = "[CHR 0xFF]" and n = 1 and command = "''*IDN?''"
             and self = "\<lparr>serial_port = Serial ([CHR 0xFF] ## [] ## sconst []), ps_id = None\<rparr>"]
        decode_response_spec
          [where r = "''0.1''" and x = "Finite (3602879701896397 / 36028797018963968)"]
        decode_response_spec
          [where r = "''05.01''" and x = "Finite (2820379266640773 / 562949953421312)"]
        decode_response_spec [where r = "''1e400''" and x = PosInf]
        decode_response_spec [where r = "''1e-400''" and x = "Finite 0"]
        decode_response_spec [where r = "''-0.0''" and x = NegZero]
  by (simp add: float_12_50 float_korad float_ff utf8_korad utf8_ff Serial_def
                perform_bug_workarounds_def float_0_1 float_05_01 float_1e400 float_1e_400
                float_minus_0)

lemma is_digit_plain:
  "is_digit c \<Longrightarrow> c \<noteq> CHR ''+'' \<and> c \<noteq> CHR ''-'' \<and> c \<noteq> CHR ''.'' \<and> c \<noteq> CHR ''e''
     \<and> c \<noteq> CHR ''E'' \<and> c \<noteq> CHR ''_'' \<and> \<not> is_space c \<and> to_lower c = c
     \<and> c \<noteq> CHR ''i'' \<and> c \<noteq> CHR ''n''"
  by (auto simp: is_digit_def is_space_def to_lower_def)

lemma strip_underscores_none:
  "CHR ''_'' \<notin> set s \<Longrightarrow> p \<noteq> CHR ''_'' \<Longrightarrow> strip_underscores p s = Some s"
  by (induction s arbitrary: p) auto

lemma digits_then:
  assumes "list_all is_digit ds" and "rest = [] \<or> \<not> is_digit (hd rest)"
  shows "takeWhile is_digit (ds @ rest) = ds" and "dropWhile is_digit (ds @ rest) = rest"
proof -
  have t: "takeWhile is_digit rest = []" and d: "dropWhile is_digit rest = rest"
    using assms(2) by (cases rest; simp)+
  show "takeWhile is_digit (ds @ rest) = ds"
    using assms(1) t by (induction ds) auto
  show "dropWhile is_digit (ds @ rest) = rest"
    using assms(1) d by (induction ds) auto
qed

lemma parse_sign_text:
  assumes "s \<noteq> []" and "hd s \<noteq> CHR ''+''" and "hd s \<noteq> CHR ''-''"
  shows "parse_sign (sign_text sg @ s) = (sign_negative sg, s)"
  using assms by (cases sg; cases s) (simp_all add: parse_sign_def)

lemma strip_ends:
  assumes "s \<noteq> []" and "\<not> is_space (hd s)" and "\<not> is_space (last s)"
  shows "dropWhile is_space s = s" and "rev (dropWhile is_space (rev s)) = s"
proof -
  show "dropWhile is_space s = s"
    using assms(1,2) by (cases s) simp_all
  have "rev s \<noteq> []" "\<not> is_space (hd (rev s))"
    using assms(1,3) by (simp_all add: hd_rev)
  then have "dropWhile is_space (rev s) = rev s"
    by (cases "rev s") simp_all
  then show "rev (dropWhile is_space (rev s)) = s" by simp
qed

lemma float_of_bytes_plain:
  assumes "s \<noteq> []" and "\<forall>c\<in>set s. \<not> is_space c \<and> c \<noteq> CHR ''_''"
      and "string_to_double s = Some (x, [])"
  shows "float_of_bytes s = Some x"
proof -
  have "CHR ''_'' \<notin> set s" using assms(2) by blast
  then have u: "strip_underscores (CHR 0x00) s = Some s"
    by (rule strip_underscores_none) simp
  have "\<not> is_space (hd s)" "\<not> is_space (last s)"
    using assms(1,2) by simp_all
  from strip_ends[OF assms(1) this] assms(1,3) u show ?thesis
    by (simp add: float_of_bytes_def float_from_string_inner_def)
qed

lemma exponent_text_head:
  "exponent_text ex = [] \<or>
     \<not> is_digit (hd (exponent_text ex)) \<and> hd (exponent_text ex) \<noteq> CHR ''.''"
  by (auto simp: exponent_text_def is_digit_def split: option.splits)

lemma parse_exponent_text:
  assumes "case ex of None \<Rightarrow> True | Some (upper, es, ed) \<Rightarrow> ed \<noteq> [] \<and> list_all is_digit ed"
  shows "parse_exponent (exponent_text ex) = (exponent_value ex, [])"
proof (cases ex)
  case None
  then show ?thesis
    by (simp add: exponent_text_def exponent_value_def parse_exponent_def)
next
  case (Some a)
  then obtain upper es ed where a: "ex = Some (upper, es, ed)" by (cases a) auto
  with assms have ed: "ed \<noteq> []" "list_all is_digit ed" by simp_all
  then have "is_digit (hd ed)" by (cases ed) simp_all
  then have "hd ed \<noteq> CHR ''+''" "hd ed \<noteq> CHR ''-''"
    using is_digit_plain by blast+
  from parse_sign_text[OF ed(1) this]
  have ps: "parse_sign (sign_text es @ ed) = (sign_negative es, ed)" .
  have tw: "takeWhile is_digit ed = ed" "dropWhile is_digit ed = []"
    using digits_then[OF ed(2), of "[]"] by simp_all
  show ?thesis
    using a ed(1)
    by (simp add: exponent_text_def exponent_value_def parse_exponent_def Let_def ps tw)
qed

lemma decimal_tail_head:
  assumes "decimal_wf ip f ex"
  shows "ip @ fraction_text f @ exponent_text ex \<noteq> []"
    and "is_digit (hd (ip @ fraction_text f @ exponent_text ex))
         \<or> hd (ip @ fraction_text f @ exponent_text ex) = CHR ''.''"
proof -
  show "ip @ fraction_text f @ exponent_text ex \<noteq> []"
    using assms by (auto simp: decimal_wf_def fraction_text_def split: option.splits)
  show "is_digit (hd (ip @ fraction_text f @ exponent_text ex))
         \<or> hd (ip @ fraction_text f @ exponent_text ex) = CHR ''.''"
  proof (cases ip)
    case Nil
    with assms show ?thesis
      by (auto simp: decimal_wf_def fraction_text_def split: option.splits)
  next
    case (Cons c cs)
    with assms show ?thesis by (simp add: decimal_wf_def)
  qed
qed

lemma strtod_decimal:
  assumes wf: "decimal_wf ip f ex"
  shows "strtod (decimal_text sg ip f ex) = Some (decimal_float sg ip f ex, [])"
proof -
  let ?tail = "ip @ fraction_text f @ exponent_text ex"
  from decimal_tail_head[OF wf] have ne: "?tail \<noteq> []"
    and hd: "hd ?tail \<noteq> CHR ''+''" "hd ?tail \<noteq> CHR ''-''"
    using is_digit_plain by auto
  have ps: "parse_sign (decimal_text sg ip f ex) = (sign_negative sg, ?tail)"
    unfolding decimal_text_def using ne hd by (rule parse_sign_text)
  have ip: "list_all is_digit ip" using wf by (simp add: decimal_wf_def)
  have exw: "case ex of None \<Rightarrow> True | Some (upper, es, ed) \<Rightarrow> ed \<noteq> [] \<and> list_all is_digit ed"
    using wf by (simp add: decimal_wf_def)
  have s2h: "fraction_text f @ exponent_text ex = []
             \<or> \<not> is_digit (hd (fraction_text f @ exponent_text ex))"
    using exponent_text_head[of ex]
    by (cases f) (auto simp: fraction_text_def is_digit_def)
  note tw = digits_then[OF ip s2h]
  have frac: "(case fraction_text f @ exponent_text ex of
                 [] \<Rightarrow> ([], fraction_text f @ exponent_text ex)
               | c # r \<Rightarrow>
                   if c = CHR ''.'' then (takeWhile is_digit r, dropWhile is_digit r)
                   else ([], fraction_text f @ exponent_text ex)) =
              (fraction_digits f, exponent_text ex)"
  proof (cases f)
    case None
    then have "fraction_text f @ exponent_text ex = exponent_text ex" "fraction_digits f = []"
      by (simp_all add: fraction_text_def fraction_digits_def)
    then show ?thesis
      using exponent_text_head[of ex] by (cases "exponent_text ex") auto
  next
    case (Some fp)
    with wf have fp: "list_all is_digit fp" by (simp add: decimal_wf_def)
    have eh: "exponent_text ex = [] \<or> \<not> is_digit (hd (exponent_text ex))"
      using exponent_text_head[of ex] by blast
    from Some show ?thesis
      by (simp add: fraction_text_def fraction_digits_def digits_then[OF fp eh])
  qed
  have some: "\<not> (ip = [] \<and> fraction_digits f = [])"
    using wf by (cases f) (auto simp: decimal_wf_def fraction_digits_def)
  have pe: "parse_exponent (exponent_text ex) = (exponent_value ex, [])"
    using exw by (rule parse_exponent_text)
  show ?thesis
    using some by (simp add: strtod_def ps tw frac pe decimal_float_def)
qed

lemma parse_inf_or_nan_decimal:
  assumes wf: "decimal_wf ip f ex"
  shows "parse_inf_or_nan (decimal_text sg ip f ex) = None"
proof -
  let ?tail = "ip @ fraction_text f @ exponent_text ex"
  from decimal_tail_head[OF wf] have ne: "?tail \<noteq> []"
    and dd: "is_digit (hd ?tail) \<or> hd ?tail = CHR ''.''"
    by simp_all
  have hd: "hd ?tail \<noteq> CHR ''+''" "hd ?tail \<noteq> CHR ''-''"
    using dd is_digit_plain by auto
  have lo: "to_lower (hd ?tail) \<noteq> CHR ''i''" "to_lower (hd ?tail) \<noteq> CHR ''n''"
  proof -
    from dd show "to_lower (hd ?tail) \<noteq> CHR ''i''"
    proof
      assume "is_digit (hd ?tail)"
      from is_digit_plain[OF this] show ?thesis by simp
    next
      assume "hd ?tail = CHR ''.''"
      then show ?thesis by (simp add: to_lower_def)
    qed
    from dd show "to_lower (hd ?tail) \<noteq> CHR ''n''"
    proof
      assume "is_digit (hd ?tail)"
      from is_digit_plain[OF this] show ?thesis by simp
    next
      assume "hd ?tail = CHR ''.''"
      then show ?thesis by (simp add: to_lower_def)
    qed
  qed
  have ps: "parse_sign (decimal_text sg ip f ex) = (sign_negative sg, ?tail)"
    unfolding decimal_text_def using ne hd by (rule parse_sign_text)
  obtain c cs where t: "?tail = c # cs" using ne by (cases ?tail) auto
  with lo have "to_lower c \<noteq> CHR ''i''" "to_lower c \<noteq> CHR ''n''" by simp_all
  then have "map to_lower (take 3 (c # cs)) \<noteq> ''inf''" "map to_lower (take 3 (c # cs)) \<noteq> ''nan''"
    by (auto simp: numeral_3_eq_3)
  with ps t show ?thesis
    by (simp add: parse_inf_or_nan_def)
qed

lemma decimal_text_plain:
  assumes wf: "decimal_wf ip f ex"
  shows "\<forall>c\<in>set (decimal_text sg ip f ex). \<not> is_space c \<and> c \<noteq> CHR ''_''"
proof -
  have d: "\<not> is_space c \<and> c \<noteq> CHR ''_''" if "c \<in> set ds" "list_all is_digit ds" for c ds
    using that is_digit_plain by (auto simp: list_all_iff)
  have s: "\<forall>c\<in>set (sign_text sg). \<not> is_space c \<and> c \<noteq> CHR ''_''" for sg
    by (cases sg) (simp_all add: is_space_def)
  have "\<forall>c\<in>set ip. \<not> is_space c \<and> c \<noteq> CHR ''_''"
    using wf d by (auto simp: decimal_wf_def)
  moreover have "\<forall>c\<in>set (fraction_text f). \<not> is_space c \<and> c \<noteq> CHR ''_''"
    using wf d by (cases f) (auto simp: decimal_wf_def fraction_text_def is_space_def)
  moreover have "\<forall>c\<in>set (exponent_text ex). \<not> is_space c \<and> c \<noteq> CHR ''_''"
  proof (cases ex)
    case None
    then show ?thesis by (simp add: exponent_text_def)
  next
    case (Some a)
    then obtain upper es ed where a: "ex = Some (upper, es, ed)" by (cases a) auto
    with wf have "list_all is_digit ed" by (simp add: decimal_wf_def)
    with d have "\<forall>c\<in>set ed. \<not> is_space c \<and> c \<noteq> CHR ''_''" by blast
    with a s[of es] show ?thesis
      by (auto simp: exponent_text_def is_space_def)
  qed
  ultimately show ?thesis
    using s[of sg] by (auto simp: decimal_text_def)
qed

lemma float_of_bytes_decimal:
  assumes wf: "decimal_wf ip f ex"
  shows "float_of_bytes (decimal_text sg ip f ex) = Some (decimal_float sg ip f ex)"
proof -
  have "decimal_text sg ip f ex \<noteq> []"
    using decimal_tail_head(1)[OF wf] by (simp add: decimal_text_def)
  moreover have "string_to_double (decimal_text sg ip f ex) = Some (decimal_float sg ip f ex, [])"
    by (simp add: string_to_double_def parse_inf_or_nan_decimal[OF wf] strtod_decimal[OF wf])
  ultimately show ?thesis
    using decimal_text_plain[OF wf] by (intro float_of_bytes_plain) auto
qed


lemma to_lower_letter:
  "to_lower c \<in> set ''inftya'' \<Longrightarrow>
     \<not> is_space c \<and> c \<noteq> CHR ''_'' \<and> c \<noteq> CHR ''+'' \<and> c \<noteq> CHR ''-''"
  by (auto simp: to_lower_def is_space_def split: if_splits)

lemma float_of_bytes_word:
  assumes w: "map to_lower w = ''inf'' \<or> map to_lower w = ''infinity'' \<or> map to_lower w = ''nan''"
  shows "float_of_bytes (sign_text sg @ w) =
           Some (if map to_lower w = ''nan'' then NaN
                 else if sign_negative sg then NegInf else PosInf)"
proof -
  have letters: "to_lower c \<in> set ''inftya''" if "c \<in> set w" for c
  proof -
    from that have "to_lower c \<in> set (map to_lower w)" by simp
    with w show ?thesis by auto
  qed
  have ne: "w \<noteq> []" using w by auto
  then have "hd w \<in> set w" by simp
  from to_lower_letter[OF letters[OF this]]
  have hd: "hd w \<noteq> CHR ''+''" "hd w \<noteq> CHR ''-''" by simp_all
  have ps: "parse_sign (sign_text sg @ w) = (sign_negative sg, w)"
    using ne hd by (rule parse_sign_text)
  have t3: "map to_lower (take 3 w) = take 3 (map to_lower w)"
    and t5: "map to_lower (take 5 (drop 3 w)) = take 5 (drop 3 (map to_lower w))"
    by (simp_all add: take_map drop_map)
  have len: "length w = length (map to_lower w)" by simp
  have d3: "map to_lower (drop 3 w) = drop 3 (map to_lower w)"
    by (simp add: drop_map)
  have pi: "parse_inf_or_nan (sign_text sg @ w) =
              Some (if map to_lower w = ''nan'' then NaN
                    else if sign_negative sg then NegInf else PosInf, [])"
    using w
  proof (elim disjE)
    assume a: "map to_lower w = ''inf''"
    with len have "length w = 3" by simp
    with a show ?thesis by (simp add: parse_inf_or_nan_def ps t3 t5)
  next
    assume a: "map to_lower w = ''infinity''"
    with len have "length w = 8" by simp
    with a show ?thesis by (simp add: parse_inf_or_nan_def ps t3 d3)
  next
    assume a: "map to_lower w = ''nan''"
    with len have "length w = 3" by simp
    with a show ?thesis by (simp add: parse_inf_or_nan_def ps t3 t5)
  qed
  have plain: "\<forall>c\<in>set (sign_text sg @ w). \<not> is_space c \<and> c \<noteq> CHR ''_''"
  proof
    fix c assume "c \<in> set (sign_text sg @ w)"
    then consider "c \<in> set (sign_text sg)" | "c \<in> set w" by auto
    then show "\<not> is_space c \<and> c \<noteq> CHR ''_''"
    proof cases
      case 1
      then show ?thesis by (cases sg) (simp_all add: is_space_def)
    next
      case 2
      from to_lower_letter[OF letters[OF this]] show ?thesis by simp
    qed
  qed
  have "sign_text sg @ w \<noteq> []" using ne by simp
  moreover have "string_to_double (sign_text sg @ w) =
      Some (if map to_lower w = ''nan'' then NaN
            else if sign_negative sg then NegInf else PosInf, [])"
    by (simp add: string_to_double_def pi)
  ultimately show ?thesis
    using plain by (intro float_of_bytes_plain) auto
qed

lemma to_lower_iNf: "map to_lower ''iNf'' = ''inf''"
  by code_simp

lemma to_lower_NaN: "map to_lower ''NaN'' = ''nan''"
  by code_simp

lemma decimal_float_example:
  "decimal_float Minus ''12'' (Some ''5'') (Some (False, Plus, ''1'')) = Finite (- 125)"
  by code_simp

text \<open>
  C10. What the decoder takes for a number is what \<open>float\<close> accepts, which is more than
  plain decimal digits. Every decimal literal with an optional sign, an optional
  fraction and an optional exponent is decoded to its float, and every spelling of
  \<open>inf\<close>, \<open>infinity\<close> and \<open>nan\<close>, signed or not, to that float, instead of being
  returned as text; ASCII whitespace on either side of what \<open>float\<close> accepts is dropped
  and the number returned.
\<close>

theorem decode_response_float_syntax:
  "(decimal_wf ip f ex \<and> list_all is_space l \<and> list_all is_space t \<longrightarrow>
      decode_response (l @ decimal_text sg ip f ex @ t) = Inr (PyFloat (decimal_float sg ip f ex)))
   \<and> (map to_lower w \<in> {''inf'', ''infinity''} \<and> list_all is_space l \<and> list_all is_space t \<longrightarrow>
      decode_response (l @ (sign_text sg @ w) @ t) =
        Inr (PyFloat (if sign_negative sg then NegInf else PosInf)))
   \<and> (map to_lower w = ''nan'' \<and> list_all is_space l \<and> list_all is_space t \<longrightarrow>
      decode_response (l @ (sign_text sg @ w) @ t) = Inr (PyFloat NaN))
   \<and> (float_of_bytes r = Some x \<and> list_all is_space l \<and> list_all is_space t \<longrightarrow>
      decode_response (l @ r @ t) = Inr (PyFloat x))
   \<and> decode_response ''12.5\<newline>'' = Inr (PyFloat (Finite 12.5))
   \<and> decode_response ''-12.5'' = Inr (PyFloat (Finite (- 12.5)))
   \<and> decode_response ''+12.5'' = Inr (PyFloat (Finite 12.5))
   \<and> decode_response ''1e3'' = Inr (PyFloat (Finite 1000))
   \<and> decode_response ''inf'' = Inr (PyFloat PosInf)
   \<and> decode_response ''-Infinity'' = Inr (PyFloat NegInf)
   \<and> decode_response ''nan'' = Inr (PyFloat NaN)"
proof (intro conjI impI)
  assume a: "decimal_wf ip f ex \<and> list_all is_space l \<and> list_all is_space t"
  then have "float_of_bytes (decimal_text sg ip f ex) = Some (decimal_float sg ip f ex)"
    by (simp add: float_of_bytes_decimal)
  with a have "float_of_bytes (l @ decimal_text sg ip f ex @ t) = Some (decimal_float sg ip f ex)"
    by (simp add: float_of_bytes_padded)
  then show "decode_response (l @ decimal_text sg ip f ex @ t) =
      Inr (PyFloat (decimal_float sg ip f ex))"
    by (rule decode_response_float)
next
  assume a: "map to_lower w \<in> {''inf'', ''infinity''} \<and> list_all is_space l \<and> list_all is_space t"
  then have "map to_lower w = ''inf'' \<or> map to_lower w = ''infinity'' \<or> map to_lower w = ''nan''"
    and "map to_lower w \<noteq> ''nan''"
    by auto
  from float_of_bytes_word[OF this(1), of sg] this(2)
  have "float_of_bytes (sign_text sg @ w) = Some (if sign_negative sg then NegInf else PosInf)"
    by simp
  with a have "float_of_bytes (l @ (sign_text sg @ w) @ t) =
      Some (if sign_negative sg then NegInf else PosInf)"
    by (intro float_of_bytes_padded) simp_all
  then show "decode_response (l @ (sign_text sg @ w) @ t) =
      Inr (PyFloat (if sign_negative sg then NegInf else PosInf))"
    by (rule decode_response_float)
next
  assume a: "map to_lower w = ''nan'' \<and> list_all is_space l \<and> list_all is_space t"
  then have "map to_lower w = ''inf'' \<or> map to_lower w = ''infinity'' \<or> map to_lower w = ''nan''"
    by simp
  from float_of_bytes_word[OF this, of sg] a
  have "float_of_bytes (sign_text sg @ w) = Some NaN"
    by simp
  with a have "float_of_bytes (l @ (sign_text sg @ w) @ t) = Some NaN"
    by (intro float_of_bytes_padded) simp_all
  then show "decode_response (l @ (sign_text sg @ w) @ t) = Inr (PyFloat NaN)"
    by (rule decode_response_float)
next
  assume "float_of_bytes r = Some x \<and> list_all is_space l \<and> list_all is_space t"
  then have "float_of_bytes (l @ r @ t) = Some x"
    by (simp add: float_of_bytes_padded)
  then show "decode_response (l @ r @ t) = Inr (PyFloat x)"
    by (rule decode_response_float)
qed (simp_all add: decode_response_float float_12_5_nl float_minus float_plus float_1e3
       float_inf float_minus_infinity float_nan)

text \<open>
  The literal \<open>-12.5e+1\<close> between a space and a carriage return and line feed is the
  number \<open>-125.0\<close>; \<open>-iNf\<close> followed by a line feed is the negative infinity, \<open>NaN\<close> after
  a tabulator is \<open>nan\<close>, and \<open>12.5\<close> padded the same way is \<open>12.5\<close>.
\<close>

theorem decode_response_float_syntax_witness:
  "decode_response ('' '' @ ''-12.5e+1'' @ [CHR 0x0D, CHR 0x0A]) = Inr (PyFloat (Finite (- 125)))
   \<and> decode_response ([] @ ''-iNf'' @ [CHR 0x0A]) = Inr (PyFloat NegInf)
   \<and> decode_response ([CHR 0x09] @ ''NaN'' @ []) = Inr (PyFloat NaN)
   \<and> decode_response ('' '' @ ''12.5'' @ [CHR 0x0D, CHR 0x0A]) = Inr (PyFloat (Finite 12.5))"
proof -
  have wf: "decimal_wf ''12'' (Some ''5'') (Some (False, Plus, ''1''))"
    by (simp add: decimal_wf_def is_digit_def)
  have tx: "decimal_text Minus ''12'' (Some ''5'') (Some (False, Plus, ''1'')) = ''-12.5e+1''"
    by (simp add: decimal_text_def fraction_text_def exponent_text_def)
  have sp: "list_all is_space '' ''" "list_all is_space [CHR 0x0D, CHR 0x0A]"
    "list_all is_space [CHR 0x0A]" "list_all is_space [CHR 0x09]" "list_all is_space []"
    by (simp_all add: is_space_def)
  from decode_response_float_syntax
          [where ip = "''12''" and f = "Some ''5''" and ex = "Some (False, Plus, ''1'')"
             and sg = Minus and l = "'' ''" and t = "[CHR 0x0D, CHR 0x0A]"
             and r = "''12.5''" and x = "Finite 12.5" and w = "''inf''"]
       wf sp float_12_5
  have 1: "decode_response ('' '' @ ''-12.5e+1'' @ [CHR 0x0D, CHR 0x0A]) =
             Inr (PyFloat (Finite (- 125)))"
    and 4: "decode_response ('' '' @ ''12.5'' @ [CHR 0x0D, CHR 0x0A]) =
             Inr (PyFloat (Finite 12.5))"
    by (simp_all add: tx decimal_float_example)
  from decode_response_float_syntax
          [where ip = "''12''" and f = "Some ''5''" and ex = "Some (False, Plus, ''1'')"
             and w = "''iNf''" and sg = Minus and l = "[]" and t = "[CHR 0x0A]"
             and r = "''12.5''" and x = "Finite 12.5"]
       sp to_lower_iNf
  have 2: "decode_response ([] @ ''-iNf'' @ [CHR 0x0A]) = Inr (PyFloat NegInf)"
    by simp
  from decode_response_float_syntax
          [where ip = "''12''" and f = "Some ''5''" and ex = "Some (False, Plus, ''1'')"
             and w = "''NaN''" and sg = NoSign and l = "[CHR 0x09]" and t = "[]"
             and r = "''12.5''" and x = "Finite 12.5"]
       sp to_lower_NaN
  have 3: "decode_response ([CHR 0x09] @ ''NaN'' @ []) = Inr (PyFloat NaN)"
    by simp
  from 1 2 3 4 show ?thesis by simp
qed

section \<open>The status queries\<close>

lemma loop_first:
  assumes "execute_command s0 ''STATUS?'' False = Some (Inr (PyBytes d), s1)" and "c < 3"
  shows "is_protection_enabled_loop s0 m c =
           (if length d = 1 then Some (Inr (PyBool ((of_char (d ! 0) :: int) AND m \<noteq> 0)), s1)
            else is_protection_enabled_loop s1 m (c + 1))"
  using assms
  by (subst is_protection_enabled_loop.simps) (simp add: encode_utf8_def)

lemma loop_done: "is_protection_enabled_loop s m 3 = Some (Inr (PyBool False), s)"
  by (subst is_protection_enabled_loop.simps) simp

lemma loop_written:
  assumes "is_protection_enabled_loop s m c = Some (r, s')" and "is_open (serial_port s)"
  shows "\<exists>k. k \<le> 3 - c \<and> (c < 3 \<longrightarrow> 1 \<le> k)
           \<and> written (serial_port s') = written (serial_port s) @ replicate k ''STATUS?''"
  using assms
proof (induction s m c rule: is_protection_enabled_loop.induct)
  case (1 self m counter)
  show ?case
  proof (cases "counter < 3")
    case False
    with "1.prems" show ?thesis
      by (subst (asm) is_protection_enabled_loop.simps) auto
  next
    case True
    from "1.prems"(1) True obtain r1 s1 where
      e: "execute_command self (encode_utf8 ''STATUS?'') False = Some (r1, s1)"
      by (subst (asm) is_protection_enabled_loop.simps) (auto split: option.splits)
    note f = execute_command_Some[OF e]
    from f(4) "1.prems"(2)
    have w: "written (serial_port s1) = written (serial_port self) @ [''STATUS?'']"
      by (simp add: encode_utf8_def)
    have o: "is_open (serial_port s1)" using f(2) "1.prems"(2) by simp
    show ?thesis
    proof (cases r1)
      case (Inl e1)
      with "1.prems"(1) True e have "s' = s1"
        by (subst (asm) is_protection_enabled_loop.simps) auto
      with w True show ?thesis by (intro exI[of _ 1]) simp
    next
      case (Inr v)
      with f(7) obtain d where v: "v = PyBytes d" by auto
      show ?thesis
      proof (cases "length d = 1")
        case l: True
        with "1.prems"(1) True e Inr v have "s' = s1"
          by (subst (asm) is_protection_enabled_loop.simps) auto
        with w True show ?thesis by (intro exI[of _ 1]) simp
      next
        case l: False
        with "1.prems"(1) True e Inr v
        have rec: "is_protection_enabled_loop s1 m (counter + 1) = Some (r, s')"
          by (subst (asm) is_protection_enabled_loop.simps) auto
        from "1.IH"[OF True e refl Inr v l rec o]
        obtain k where k: "k \<le> 3 - (counter + 1)"
          "written (serial_port s') = written (serial_port s1) @ replicate k ''STATUS?''"
          by auto
        with w True show ?thesis
          by (intro exI[of _ "Suc k"]) (simp add: replicate_app_Cons_same)
      qed
    qed
  qed
qed


text \<open>
  C4. The two protection queries ask for the status at most three times. The first
  response of exactly one byte decides: the answer is whether that byte and the mask have
  a bit in common. When three responses in a row are not one byte long the answer is
  \<open>False\<close>, and no error is raised. On an open port every answer comes after one, two or
  three status requests and no other write.
\<close>

theorem is_protection_enabled_retry:
  "(execute_command s0 ''STATUS?'' False = Some (Inr (PyBytes d1), s1) \<and> length d1 = 1 \<longrightarrow>
      is_protection_enabled s0 m = Some (Inr (PyBool ((of_char (d1 ! 0) :: int) AND m \<noteq> 0)), s1))
   \<and> (execute_command s0 ''STATUS?'' False = Some (Inr (PyBytes d1), s1) \<and> length d1 \<noteq> 1
      \<and> execute_command s1 ''STATUS?'' False = Some (Inr (PyBytes d2), s2) \<and> length d2 = 1 \<longrightarrow>
      is_protection_enabled s0 m = Some (Inr (PyBool ((of_char (d2 ! 0) :: int) AND m \<noteq> 0)), s2))
   \<and> (execute_command s0 ''STATUS?'' False = Some (Inr (PyBytes d1), s1) \<and> length d1 \<noteq> 1
      \<and> execute_command s1 ''STATUS?'' False = Some (Inr (PyBytes d2), s2) \<and> length d2 \<noteq> 1
      \<and> execute_command s2 ''STATUS?'' False = Some (Inr (PyBytes d3), s3) \<and> length d3 = 1 \<longrightarrow>
      is_protection_enabled s0 m = Some (Inr (PyBool ((of_char (d3 ! 0) :: int) AND m \<noteq> 0)), s3))
   \<and> (execute_command s0 ''STATUS?'' False = Some (Inr (PyBytes d1), s1) \<and> length d1 \<noteq> 1
      \<and> execute_command s1 ''STATUS?'' False = Some (Inr (PyBytes d2), s2) \<and> length d2 \<noteq> 1
      \<and> execute_command s2 ''STATUS?'' False = Some (Inr (PyBytes d3), s3) \<and> length d3 \<noteq> 1 \<longrightarrow>
      is_protection_enabled s0 m = Some (Inr (PyBool False), s3))
   \<and> (is_open (serial_port s0) \<and> is_protection_enabled s0 m = Some (r, s') \<longrightarrow>
        (\<exists>k. 1 \<le> k \<and> k \<le> 3
            \<and> written (serial_port s') = written (serial_port s0) @ replicate k ''STATUS?''))
   \<and> is_over_voltage_protection_enabled s0 = is_protection_enabled s0 0x80
   \<and> is_over_current_protection_enabled s0 = is_protection_enabled s0 0x20"
proof (intro conjI impI)
  assume "execute_command s0 ''STATUS?'' False = Some (Inr (PyBytes d1), s1) \<and> length d1 = 1"
  then show "is_protection_enabled s0 m =
      Some (Inr (PyBool ((of_char (d1 ! 0) :: int) AND m \<noteq> 0)), s1)"
    by (simp add: is_protection_enabled_def loop_first)
next
  assume "execute_command s0 ''STATUS?'' False = Some (Inr (PyBytes d1), s1) \<and> length d1 \<noteq> 1
      \<and> execute_command s1 ''STATUS?'' False = Some (Inr (PyBytes d2), s2) \<and> length d2 = 1"
  then show "is_protection_enabled s0 m =
      Some (Inr (PyBool ((of_char (d2 ! 0) :: int) AND m \<noteq> 0)), s2)"
    by (simp add: is_protection_enabled_def loop_first)
next
  assume "execute_command s0 ''STATUS?'' False = Some (Inr (PyBytes d1), s1) \<and> length d1 \<noteq> 1
      \<and> execute_command s1 ''STATUS?'' False = Some (Inr (PyBytes d2), s2) \<and> length d2 \<noteq> 1
      \<and> execute_command s2 ''STATUS?'' False = Some (Inr (PyBytes d3), s3) \<and> length d3 = 1"
  then show "is_protection_enabled s0 m =
      Some (Inr (PyBool ((of_char (d3 ! 0) :: int) AND m \<noteq> 0)), s3)"
    by (simp add: is_protection_enabled_def loop_first)
next
  assume "execute_command s0 ''STATUS?'' False = Some (Inr (PyBytes d1), s1) \<and> length d1 \<noteq> 1
      \<and> execute_command s1 ''STATUS?'' False = Some (Inr (PyBytes d2), s2) \<and> length d2 \<noteq> 1
      \<and> execute_command s2 ''STATUS?'' False = Some (Inr (PyBytes d3), s3) \<and> length d3 \<noteq> 1"
  then show "is_protection_enabled s0 m = Some (Inr (PyBool False), s3)"
    by (simp add: is_protection_enabled_def loop_first loop_done [unfolded numeral_3_eq_3])
next
  assume "is_open (serial_port s0) \<and> is_protection_enabled s0 m = Some (r, s')"
  then have "is_protection_enabled_loop s0 m 0 = Some (r, s')" "is_open (serial_port s0)"
    by (simp_all add: is_protection_enabled_def)
  from loop_written[OF this]
  show "\<exists>k. 1 \<le> k \<and> k \<le> 3
          \<and> written (serial_port s') = written (serial_port s0) @ replicate k ''STATUS?''"
    by auto
next
  show "is_over_voltage_protection_enabled s0 = is_protection_enabled s0 0x80"
    by (simp add: is_over_voltage_protection_enabled_def OVER_VOLTAGE_PROTECTION_ENABLED_MASK_def)
next
  show "is_over_current_protection_enabled s0 = is_protection_enabled s0 0x20"
    by (simp add: is_over_current_protection_enabled_def OVER_CURRENT_PROTECTION_ENABLED_MASK_def)
qed

lemma status_reply:
  "execute_command
     \<lparr>serial_port = \<lparr>is_open = True, close_calls = c, written = w, read_calls = k,
                     incoming = d ## [] ## rest\<rparr>, ps_id = i\<rparr> ''STATUS?'' False =
   (if d = []
    then Some (Inr (PyBytes []),
           \<lparr>serial_port = \<lparr>is_open = True, close_calls = c, written = w @ [''STATUS?''],
                           read_calls = Suc k, incoming = [] ## rest\<rparr>, ps_id = i\<rparr>)
    else Some (Inr (PyBytes d),
           \<lparr>serial_port = \<lparr>is_open = True, close_calls = c, written = w @ [''STATUS?''],
                           read_calls = Suc (Suc k), incoming = rest\<rparr>, ps_id = i\<rparr>))"
proof (cases "d = []")
  case True
  then show ?thesis
    using execute_command_idle
            [of "\<lparr>serial_port = \<lparr>is_open = True, close_calls = c, written = w, read_calls = k,
                     incoming = d ## [] ## rest\<rparr>, ps_id = i\<rparr>" 0 "''STATUS?''" False]
    by (simp add: perform_bug_workarounds_def)
next
  case False
  then show ?thesis
    using execute_command_idle
            [of "\<lparr>serial_port = \<lparr>is_open = True, close_calls = c, written = w, read_calls = k,
                     incoming = d ## [] ## rest\<rparr>, ps_id = i\<rparr>" 1 "''STATUS?''" False]
    by (simp add: perform_bug_workarounds_def)
qed

lemma status_silent:
  "execute_command
     \<lparr>serial_port = \<lparr>is_open = True, close_calls = c, written = w, read_calls = k,
                     incoming = sconst []\<rparr>, ps_id = i\<rparr> ''STATUS?'' False =
   Some (Inr (PyBytes []),
         \<lparr>serial_port = \<lparr>is_open = True, close_calls = c, written = w @ [''STATUS?''],
                         read_calls = Suc k, incoming = sconst []\<rparr>, ps_id = i\<rparr>)"
  using execute_command_idle
          [of "\<lparr>serial_port = \<lparr>is_open = True, close_calls = c, written = w, read_calls = k,
                   incoming = sconst []\<rparr>, ps_id = i\<rparr>" 0 "''STATUS?''" False]
  by (simp add: perform_bug_workarounds_def)

theorem is_protection_enabled_retry_witness:
  "is_over_voltage_protection_enabled
     \<lparr>serial_port = Serial ([CHR 0x80] ## [] ## sconst []), ps_id = None\<rparr> =
   Some (Inr (PyBool True),
         \<lparr>serial_port = \<lparr>is_open = True, close_calls = 0, written = [''STATUS?''],
                         read_calls = 2, incoming = sconst []\<rparr>, ps_id = None\<rparr>)
   \<and> is_over_voltage_protection_enabled
     \<lparr>serial_port = Serial ([CHR 0x00] ## [] ## sconst []), ps_id = None\<rparr> =
   Some (Inr (PyBool False),
         \<lparr>serial_port = \<lparr>is_open = True, close_calls = 0, written = [''STATUS?''],
                         read_calls = 2, incoming = sconst []\<rparr>, ps_id = None\<rparr>)
   \<and> is_over_current_protection_enabled
     \<lparr>serial_port = Serial ([CHR 0x20, CHR 0x20] ## [] ## [CHR 0x20] ## [] ## sconst []),
      ps_id = None\<rparr> =
   Some (Inr (PyBool True),
         \<lparr>serial_port = \<lparr>is_open = True, close_calls = 0, written = [''STATUS?'', ''STATUS?''],
                         read_calls = 4, incoming = sconst []\<rparr>, ps_id = None\<rparr>)
   \<and> is_over_voltage_protection_enabled
     \<lparr>serial_port = Serial (sconst []), ps_id = None\<rparr> =
   Some (Inr (PyBool False),
         \<lparr>serial_port = \<lparr>is_open = True, close_calls = 0,
                         written = [''STATUS?'', ''STATUS?'', ''STATUS?''],
                         read_calls = 3, incoming = sconst []\<rparr>, ps_id = None\<rparr>)"
  using is_protection_enabled_retry
          [where ?s0.0 = "\<lparr>serial_port = Serial ([CHR 0x80] ## [] ## sconst []), ps_id = None\<rparr>"
             and ?d1.0 = "[CHR 0x80]" and m = "0x80"
             and ?s1.0 = "\<lparr>serial_port = \<lparr>is_open = True, close_calls = 0,
                    written = [''STATUS?''], read_calls = 2, incoming = sconst []\<rparr>,
                    ps_id = None\<rparr>"]
        is_protection_enabled_retry
          [where ?s0.0 = "\<lparr>serial_port = Serial ([CHR 0x00] ## [] ## sconst []), ps_id = None\<rparr>"
             and ?d1.0 = "[CHR 0x00]" and m = "0x80"
             and ?s1.0 = "\<lparr>serial_port = \<lparr>is_open = True, close_calls = 0,
                    written = [''STATUS?''], read_calls = 2, incoming = sconst []\<rparr>,
                    ps_id = None\<rparr>"]
        is_protection_enabled_retry
          [where ?s0.0 = "\<lparr>serial_port =
                    Serial ([CHR 0x20, CHR 0x20] ## [] ## [CHR 0x20] ## [] ## sconst []),
                    ps_id = None\<rparr>"
             and ?d1.0 = "[CHR 0x20, CHR 0x20]" and m = "0x20"
             and ?s1.0 = "\<lparr>serial_port = \<lparr>is_open = True, close_calls = 0,
                    written = [''STATUS?''], read_calls = 2,
                    incoming = [CHR 0x20] ## [] ## sconst []\<rparr>, ps_id = None\<rparr>"
             and ?d2.0 = "[CHR 0x20]"
             and ?s2.0 = "\<lparr>serial_port = \<lparr>is_open = True, close_calls = 0,
                    written = [''STATUS?'', ''STATUS?''], read_calls = 4,
                    incoming = sconst []\<rparr>, ps_id = None\<rparr>"]
        is_protection_enabled_retry
          [where ?s0.0 = "\<lparr>serial_port = Serial (sconst []), ps_id = None\<rparr>"
             and ?d1.0 = "[]" and m = "0x80"
             and ?s1.0 = "\<lparr>serial_port = \<lparr>is_open = True, close_calls = 0,
                    written = [''STATUS?''], read_calls = 1, incoming = sconst []\<rparr>,
                    ps_id = None\<rparr>"
             and ?d2.0 = "[]"
             and ?s2.0 = "\<lparr>serial_port = \<lparr>is_open = True, close_calls = 0,
                    written = [''STATUS?'', ''STATUS?''], read_calls = 2,
                    incoming = sconst []\<rparr>, ps_id = None\<rparr>"
             and ?d3.0 = "[]"
             and ?s3.0 = "\<lparr>serial_port = \<lparr>is_open = True, close_calls = 0,
                    written = [''STATUS?'', ''STATUS?'', ''STATUS?''], read_calls = 3,
                    incoming = sconst []\<rparr>, ps_id = None\<rparr>"]
  by (simp add: Serial_def status_reply status_silent)


section \<open>The output query\<close>

text \<open>
  C5, as the code has it. \<open>is_output_enabled\<close> asks for the status once and does not
  retry. Whenever the response has at least one byte, whatever its length, the answer is
  whether the first byte and the mask \<open>0x40\<close> have a bit in common; only the empty
  response makes the access to the first byte fail, and then \<open>IndexError\<close> is raised
  instead of an answer.
\<close>

theorem is_output_enabled_first_byte:
  "(execute_command s0 ''STATUS?'' False = Some (Inr (PyBytes d), s1) \<and> d \<noteq> [] \<longrightarrow>
      is_output_enabled s0 = Some (Inr (PyBool ((of_char (d ! 0) :: int) AND 0x40 \<noteq> 0)), s1))
   \<and> (execute_command s0 ''STATUS?'' False = Some (Inr (PyBytes []), s1) \<longrightarrow>
      is_output_enabled s0 = Some (Inl IndexError, s1))
   \<and> (is_open (serial_port s0) \<and> is_output_enabled s0 = Some (r, s') \<longrightarrow>
      written (serial_port s') = written (serial_port s0) @ [''STATUS?''])"
proof (intro conjI impI)
  assume "execute_command s0 ''STATUS?'' False = Some (Inr (PyBytes d), s1) \<and> d \<noteq> []"
  then show "is_output_enabled s0 =
      Some (Inr (PyBool ((of_char (d ! 0) :: int) AND 0x40 \<noteq> 0)), s1)"
    by (cases d)
       (simp_all add: is_output_enabled_def encode_utf8_def OUTPUT_ENABLED_MASK_def)
next
  assume "execute_command s0 ''STATUS?'' False = Some (Inr (PyBytes []), s1)"
  then show "is_output_enabled s0 = Some (Inl IndexError, s1)"
    by (simp add: is_output_enabled_def encode_utf8_def)
next
  assume a: "is_open (serial_port s0) \<and> is_output_enabled s0 = Some (r, s')"
  then obtain r1 where e: "execute_command s0 ''STATUS?'' False = Some (r1, s')"
    by (auto simp: is_output_enabled_def encode_utf8_def Let_def
             split: option.splits sum.splits py_value.splits list.splits)
  from execute_command_Some(4)[OF e] a
  show "written (serial_port s') = written (serial_port s0) @ [''STATUS?'']"
    by simp
qed

text \<open>
  The status byte \<open>0x40\<close> gives \<open>True\<close>; a device that stays silent makes the call raise
  \<open>IndexError\<close> after one request.
\<close>

theorem is_output_enabled_first_byte_witness:
  "is_output_enabled \<lparr>serial_port = Serial ([CHR 0x40] ## [] ## sconst []), ps_id = None\<rparr> =
   Some (Inr (PyBool True),
         \<lparr>serial_port = \<lparr>is_open = True, close_calls = 0, written = [''STATUS?''],
                         read_calls = 2, incoming = sconst []\<rparr>, ps_id = None\<rparr>)
   \<and> is_output_enabled \<lparr>serial_port = Serial (sconst []), ps_id = None\<rparr> =
   Some (Inl IndexError,
         \<lparr>serial_port = \<lparr>is_open = True, close_calls = 0, written = [''STATUS?''],
                         read_calls = 1, incoming = sconst []\<rparr>, ps_id = None\<rparr>)"
  using is_output_enabled_first_byte
          [where ?s0.0 = "\<lparr>serial_port = Serial ([CHR 0x40] ## [] ## sconst []), ps_id = None\<rparr>"
             and d = "[CHR 0x40]"
             and ?s1.0 = "\<lparr>serial_port = \<lparr>is_open = True, close_calls = 0,
                    written = [''STATUS?''], read_calls = 2, incoming = sconst []\<rparr>,
                    ps_id = None\<rparr>"]
        is_output_enabled_first_byte
          [where ?s0.0 = "\<lparr>serial_port = Serial (sconst []), ps_id = None\<rparr>"
             and ?s1.0 = "\<lparr>serial_port = \<lparr>is_open = True, close_calls = 0,
                    written = [''STATUS?''], read_calls = 1, incoming = sconst []\<rparr>,
                    ps_id = None\<rparr>"]
  by (simp add: Serial_def status_reply status_silent)

text \<open>
  A response of two bytes, \<open>0x00\<close> and \<open>0x40\<close>, has the wrong length. The call raises
  nothing: it returns \<open>False\<close>, read from the first byte.
\<close>

theorem is_output_enabled_two_bytes_counterexample:
  "is_output_enabled
     \<lparr>serial_port = Serial ([CHR 0x00, CHR 0x40] ## [] ## sconst []), ps_id = None\<rparr> =
   Some (Inr (PyBool False),
         \<lparr>serial_port = \<lparr>is_open = True, close_calls = 0, written = [''STATUS?''],
                         read_calls = 2, incoming = sconst []\<rparr>, ps_id = None\<rparr>)"
  by (simp add: is_output_enabled_def encode_utf8_def Serial_def status_reply
                OUTPUT_ENABLED_MASK_def)

section \<open>The range check of the voltage setter\<close>

lemma float_le_range:
  "(float_le (Finite lo) v \<and> float_le v (Finite hi)) =
     (v = NegZero \<and> lo \<le> 0 \<and> 0 \<le> hi \<or> (\<exists>x. v = Finite x \<and> lo \<le> x \<and> x \<le> hi))"
  by (cases v) simp_all

lemma return_none_Some:
  "return_none x = Some (r, s') \<longleftrightarrow>
     (\<exists>r0. x = Some (r0, s') \<and> r = (case r0 of Inl e \<Rightarrow> Inl e | Inr _ \<Rightarrow> Inr PyNone))"
  by (auto simp: return_none_def split: option.splits sum.splits)

lemma return_none_execute_command:
  assumes "return_none (execute_command self command decode) = Some (r, s')"
  shows "r \<noteq> Inl AssertionError"
    and "ps_id s' = ps_id self"
    and "is_open (serial_port s') = is_open (serial_port self)"
    and "close_calls (serial_port s') = close_calls (serial_port self)"
    and "is_open (serial_port self) \<Longrightarrow>
           written (serial_port s') = written (serial_port self) @ [command]"
proof -
  from assms obtain r0 where e: "execute_command self command decode = Some (r0, s')"
    and r: "r = (case r0 of Inl e \<Rightarrow> Inl e | Inr _ \<Rightarrow> Inr PyNone)"
    by (auto simp: return_none_Some)
  note f = execute_command_Some[OF e]
  show "r \<noteq> Inl AssertionError"
    using r f(6) by (cases r0) auto
  show "ps_id s' = ps_id self" by (rule f(1))
  show "is_open (serial_port s') = is_open (serial_port self)" by (rule f(2))
  show "close_calls (serial_port s') = close_calls (serial_port self)" by (rule f(3))
  show "is_open (serial_port self) \<Longrightarrow>
           written (serial_port s') = written (serial_port self) @ [command]"
    by (rule f(4))
qed

lemma decode_response_empty: "decode_response [] = Inr (PyStr [])"
  by (simp add: decode_response_def float_of_bytes_def float_from_string_inner_def
                decode_utf8_def)

lemma command_silent:
  "execute_command
     \<lparr>serial_port = \<lparr>is_open = True, close_calls = c, written = w, read_calls = k,
                     incoming = sconst []\<rparr>, ps_id = i\<rparr> command True =
   Some (Inr (PyStr []),
         \<lparr>serial_port = \<lparr>is_open = True, close_calls = c, written = w @ [command],
                         read_calls = Suc k, incoming = sconst []\<rparr>, ps_id = i\<rparr>)"
  using execute_command_idle
          [of "\<lparr>serial_port = \<lparr>is_open = True, close_calls = c, written = w, read_calls = k,
                   incoming = sconst []\<rparr>, ps_id = i\<rparr>" 0 command True]
  by (simp add: perform_bug_workarounds_def decode_response_empty)

text \<open>
  C6. \<open>set_output_voltage\<close> raises \<open>AssertionError\<close> exactly when the voltage is not a
  number between 0.0 and 30.0, both included (the negative zero, equal to 0.0, is one),
  and then the object and its port are as before the call: nothing was written. For a
  voltage in the range the call is the engine call with the command \<open>VSET1:\<close> followed by
  the formatted voltage, so that on an open port a call that returns has written that
  command.
\<close>

theorem set_output_voltage_range:
  "((\<exists>s'. set_output_voltage fmt self v = Some (Inl AssertionError, s'))
      \<longleftrightarrow> \<not> (v = NegZero \<or> (\<exists>x. v = Finite x \<and> 0 \<le> x \<and> x \<le> 30)))
   \<and> (\<not> (v = NegZero \<or> (\<exists>x. v = Finite x \<and> 0 \<le> x \<and> x \<le> 30)) \<longrightarrow>
        set_output_voltage fmt self v = Some (Inl AssertionError, self))
   \<and> (v = NegZero \<or> (\<exists>x. v = Finite x \<and> 0 \<le> x \<and> x \<le> 30) \<longrightarrow>
        set_output_voltage fmt self v =
          return_none (execute_command self (''VSET1:'' @ fmt (PyFloat v)) True))
   \<and> ((v = NegZero \<or> (\<exists>x. v = Finite x \<and> 0 \<le> x \<and> x \<le> 30)) \<and> is_open (serial_port self)
        \<and> set_output_voltage fmt self v = Some (r, s') \<longrightarrow>
        written (serial_port s') = written (serial_port self) @ [''VSET1:'' @ fmt (PyFloat v)])"
proof -
  let ?ok = "v = NegZero \<or> (\<exists>x. v = Finite x \<and> 0 \<le> x \<and> x \<le> 30)"
  let ?call = "return_none (execute_command self (''VSET1:'' @ fmt (PyFloat v)) True)"
  have ok: "(float_le (Finite 0) v \<and> float_le v (Finite 30)) = ?ok"
    by (simp add: float_le_range)
  have bad: "\<not> ?ok \<Longrightarrow> set_output_voltage fmt self v = Some (Inl AssertionError, self)"
    using ok by (auto simp: set_output_voltage_def)
  have good: "?ok \<Longrightarrow> set_output_voltage fmt self v = ?call"
    using ok by (auto simp: set_output_voltage_def encode_utf8_def Let_def)
  have no: "?ok \<Longrightarrow> set_output_voltage fmt self v \<noteq> Some (Inl AssertionError, s')" for s'
    using return_none_execute_command(1)[of self "''VSET1:'' @ fmt (PyFloat v)" True] good
    by auto
  have sent: "?ok \<Longrightarrow> is_open (serial_port self) \<Longrightarrow>
      set_output_voltage fmt self v = Some (r, s') \<Longrightarrow>
      written (serial_port s') = written (serial_port self) @ [''VSET1:'' @ fmt (PyFloat v)]"
    using return_none_execute_command(5)[of self "''VSET1:'' @ fmt (PyFloat v)" True r s'] good
    by simp
  show ?thesis
    using bad good no sent by blast
qed

text \<open>
  The voltages \<open>-0.1\<close> and \<open>30.1\<close> are rejected and leave the write log empty; \<open>0.0\<close>,
  \<open>-0.0\<close> and \<open>30.0\<close> are accepted, and the command is written, here to a device that
  stays silent.
\<close>

theorem set_output_voltage_range_witness:
  "set_output_voltage (\<lambda>x. ''-0.1'') \<lparr>serial_port = Serial (sconst []), ps_id = None\<rparr>
        (Finite (- 0.1)) =
     Some (Inl AssertionError, \<lparr>serial_port = Serial (sconst []), ps_id = None\<rparr>)
   \<and> set_output_voltage (\<lambda>x. ''30.1'') \<lparr>serial_port = Serial (sconst []), ps_id = None\<rparr>
        (Finite 30.1) =
     Some (Inl AssertionError, \<lparr>serial_port = Serial (sconst []), ps_id = None\<rparr>)
   \<and> written (Serial (sconst [])) = []
   \<and> set_output_voltage (\<lambda>x. ''0.0'') \<lparr>serial_port = Serial (sconst []), ps_id = None\<rparr>
        (Finite 0.0) =
     Some (Inr PyNone,
           \<lparr>serial_port = \<lparr>is_open = True, close_calls = 0, written = [''VSET1:0.0''],
                           read_calls = 1, incoming = sconst []\<rparr>, ps_id = None\<rparr>)
   \<and> set_output_voltage (\<lambda>x. ''-0.0'') \<lparr>serial_port = Serial (sconst []), ps_id = None\<rparr>
        NegZero =
     Some (Inr PyNone,
           \<lparr>serial_port = \<lparr>is_open = True, close_calls = 0, written = [''VSET1:-0.0''],
                           read_calls = 1, incoming = sconst []\<rparr>, ps_id = None\<rparr>)
   \<and> set_output_voltage (\<lambda>x. ''30.0'') \<lparr>serial_port = Serial (sconst []), ps_id = None\<rparr>
        (Finite 30.0) =
     Some (Inr PyNone,
           \<lparr>serial_port = \<lparr>is_open = True, close_calls = 0, written = [''VSET1:30.0''],
                           read_calls = 1, incoming = sconst []\<rparr>, ps_id = None\<rparr>)"
  using set_output_voltage_range
          [where v = "Finite (- 0.1)" and fmt = "\<lambda>x. ''-0.1''"
             and self = "\<lparr>serial_port = Serial (sconst []), ps_id = None\<rparr>"]
        set_output_voltage_range
          [where v = "Finite 30.1" and fmt = "\<lambda>x. ''30.1''"
             and self = "\<lparr>serial_port = Serial (sconst []), ps_id = None\<rparr>"]
        set_output_voltage_range
          [where v = "Finite 0.0" and fmt = "\<lambda>x. ''0.0''"
             and self = "\<lparr>serial_port = Serial (sconst []), ps_id = None\<rparr>"]
        set_output_voltage_range
          [where v = "NegZero" and fmt = "\<lambda>x. ''-0.0''"
             and self = "\<lparr>serial_port = Serial (sconst []), ps_id = None\<rparr>"]
        set_output_voltage_range
          [where v = "Finite 30.0" and fmt = "\<lambda>x. ''30.0''"
             and self = "\<lparr>serial_port = Serial (sconst []), ps_id = None\<rparr>"]
  by (simp add: Serial_def command_silent return_none_def)

section \<open>What a call leaves unchanged\<close>

lemma execute_command_keeps:
  assumes "execute_command self command decode = Some (r, s')"
  shows "ps_id s' = ps_id self \<and> is_open (serial_port s') = is_open (serial_port self)
         \<and> close_calls (serial_port s') = close_calls (serial_port self)"
  using execute_command_Some(1,2,3)[OF assms] by simp

lemma return_none_keeps:
  assumes "return_none (execute_command self command decode) = Some (r, s')"
  shows "ps_id s' = ps_id self \<and> is_open (serial_port s') = is_open (serial_port self)
         \<and> close_calls (serial_port s') = close_calls (serial_port self)"
  using return_none_execute_command(2,3,4)[OF assms] by simp

lemma loop_keeps:
  assumes "is_protection_enabled_loop s m c = Some (r, s')"
  shows "ps_id s' = ps_id s \<and> is_open (serial_port s') = is_open (serial_port s)
         \<and> close_calls (serial_port s') = close_calls (serial_port s)"
  using assms
proof (induction s m c rule: is_protection_enabled_loop.induct)
  case (1 self m counter)
  show ?case
  proof (cases "counter < 3")
    case False
    with "1.prems" show ?thesis
      by (subst (asm) is_protection_enabled_loop.simps) auto
  next
    case True
    from "1.prems"(1) True obtain r1 s1 where
      e: "execute_command self (encode_utf8 ''STATUS?'') False = Some (r1, s1)"
      by (subst (asm) is_protection_enabled_loop.simps) (auto split: option.splits)
    note k = execute_command_keeps[OF e]
    show ?thesis
    proof (cases r1)
      case (Inl e1)
      with "1.prems"(1) True e have "s' = s1"
        by (subst (asm) is_protection_enabled_loop.simps) auto
      with k show ?thesis by simp
    next
      case (Inr v)
      with execute_command_Some(7)[OF e] obtain d where v: "v = PyBytes d" by auto
      show ?thesis
      proof (cases "length d = 1")
        case l: True
        with "1.prems"(1) True e Inr v have "s' = s1"
          by (subst (asm) is_protection_enabled_loop.simps) auto
        with k show ?thesis by simp
      next
        case l: False
        with "1.prems"(1) True e Inr v
        have rec: "is_protection_enabled_loop s1 m (counter + 1) = Some (r, s')"
          by (subst (asm) is_protection_enabled_loop.simps) auto
        from "1.IH"[OF True e refl Inr v l rec] k show ?thesis by simp
      qed
    qed
  qed
qed

lemma call_method_keeps:
  assumes "call_method fmt s c = Some (r, s')"
  shows "ps_id s' = ps_id s
         \<and> (c \<noteq> Exit \<longrightarrow> is_open (serial_port s') = is_open (serial_port s)
               \<and> close_calls (serial_port s') = close_calls (serial_port s))"
proof (cases c)
  case (SetOutputVoltage v)
  with assms show ?thesis
    by (auto simp: set_output_voltage_def Let_def split: if_splits dest: return_none_keeps)
next
  case GetRequestedOutputVoltage
  with assms show ?thesis
    by (auto simp: get_requested_output_voltage_def dest: execute_command_keeps)
next
  case GetOutputVoltage
  with assms show ?thesis
    by (auto simp: get_output_voltage_def dest: execute_command_keeps)
next
  case (SetOutputCurrent v)
  with assms show ?thesis
    by (auto simp: set_output_current_def Let_def split: if_splits dest: return_none_keeps)
next
  case GetOutputCurrent
  with assms show ?thesis
    by (auto simp: get_output_current_def dest: execute_command_keeps)
next
  case GetRequestedOutputCurrent
  with assms show ?thesis
    by (auto simp: get_requested_output_current_def dest: execute_command_keeps)
next
  case (RecallFromMemory i)
  with assms show ?thesis
    by (auto simp: recall_from_memory_def Let_def split: if_splits dest: return_none_keeps)
next
  case (SaveToMemory i)
  with assms show ?thesis
    by (auto simp: save_to_memory_def Let_def split: if_splits dest: return_none_keeps)
next
  case (EnableOutput b)
  with assms show ?thesis
    by (auto simp: enable_output_def Let_def dest: return_none_keeps)
next
  case (EnableOverVoltageProtection b)
  with assms show ?thesis
    by (auto simp: enable_over_voltage_protection_def Let_def dest: return_none_keeps)
next
  case (EnableOverCurrentProtection b)
  with assms show ?thesis
    by (auto simp: enable_over_current_protection_def Let_def dest: return_none_keeps)
next
  case GetIdentification
  with assms show ?thesis
    by (auto simp: get_identification_def split: option.splits)
next
  case IsOutputEnabled
  with assms show ?thesis
    by (auto simp: is_output_enabled_def Let_def
             split: option.splits sum.splits py_value.splits list.splits
             dest: execute_command_keeps)
next
  case IsOverVoltageProtectionEnabled
  with assms show ?thesis
    by (auto simp: is_over_voltage_protection_enabled_def is_protection_enabled_def
             dest: loop_keeps)
next
  case IsOverCurrentProtectionEnabled
  with assms show ?thesis
    by (auto simp: is_over_current_protection_enabled_def is_protection_enabled_def
             dest: loop_keeps)
next
  case Str
  with assms show ?thesis
    by (auto simp: PowerSupply_str_def get_identification_def split: option.splits)
next
  case Exit
  with assms show ?thesis
    by (auto simp: PowerSupply_exit_def)
qed

lemma run_calls_keeps:
  assumes "run_calls fmt s calls = Some (rs, s')"
  shows "ps_id s' = ps_id s
         \<and> (Exit \<notin> set calls \<longrightarrow> is_open (serial_port s') = is_open (serial_port s)
               \<and> close_calls (serial_port s') = close_calls (serial_port s))"
  using assms
proof (induction calls arbitrary: s rs)
  case Nil
  then show ?case by simp
next
  case (Cons c calls)
  from Cons.prems obtain r s1 rs1 where c: "call_method fmt s c = Some (r, s1)"
    and rest: "run_calls fmt s1 calls = Some (rs1, s')"
    by (auto split: option.splits)
  from call_method_keeps[OF c] Cons.IH[OF rest] show ?case by auto
qed

lemma PowerSupply_init_Inr:
  assumes "PowerSupply_init device = Some (Inr ps)"
  shows "\<exists>v. get_id \<lparr>serial_port = Serial device, ps_id = None\<rparr> = Some (Inr v, ps\<lparr>ps_id := None\<rparr>)
             \<and> ps_id ps = Some v"
    and "written (serial_port ps) = [''*IDN?'']"
    and "is_open (serial_port ps)" and "close_calls (serial_port ps) = 0"
proof -
  let ?self = "\<lparr>serial_port = Serial device, ps_id = None\<rparr>"
  from assms obtain v s1 where g: "get_id ?self = Some (Inr v, s1)" and ps: "ps = s1\<lparr>ps_id := Some v\<rparr>"
    by (auto simp: PowerSupply_init_def Let_def split: option.splits sum.splits)
  then have e: "execute_command ?self ''*IDN?'' True = Some (Inr v, s1)"
    by (simp add: get_id_def encode_utf8_def)
  note f = execute_command_Some[OF e]
  from f(1) have "ps_id s1 = None" by simp
  then have "ps\<lparr>ps_id := None\<rparr> = s1" using ps by simp
  with g ps show "\<exists>v. get_id ?self = Some (Inr v, ps\<lparr>ps_id := None\<rparr>) \<and> ps_id ps = Some v"
    by simp
  from f(4) ps show "written (serial_port ps) = [''*IDN?'']" by (simp add: Serial_def)
  from f(2) ps show "is_open (serial_port ps)" by (simp add: Serial_def)
  from f(3) ps show "close_calls (serial_port ps) = 0" by (simp add: Serial_def)
qed

lemma PowerSupply_init_Inl:
  assumes "PowerSupply_init device = Some (Inl (e, t))"
  shows "is_open t \<and> close_calls t = 0 \<and> written t = [''*IDN?'']"
proof -
  let ?self = "\<lparr>serial_port = Serial device, ps_id = None\<rparr>"
  from assms obtain s1 where g: "get_id ?self = Some (Inl e, s1)" and t: "t = serial_port s1"
    by (auto simp: PowerSupply_init_def Let_def split: option.splits sum.splits)
  then have e: "execute_command ?self ''*IDN?'' True = Some (Inl e, s1)"
    by (simp add: get_id_def encode_utf8_def)
  note f = execute_command_Some[OF e]
  from f(2,3,4) t show ?thesis by (simp add: Serial_def)
qed


section \<open>The cached identity\<close>

text \<open>
  C7. Construction asks for the identity in one \<open>*IDN?\<close> transaction, the only write
  it makes, and stores the answer. No later call changes the stored value: after every
  sequence of calls, \<open>get_identification\<close> returns it and leaves the object and its port
  as they are, so that it neither reads nor writes.
\<close>

theorem identity_cached:
  "PowerSupply_init device = Some (Inr ps) \<longrightarrow>
     written (serial_port ps) = [''*IDN?'']
     \<and> (\<exists>v. get_id \<lparr>serial_port = Serial device, ps_id = None\<rparr>
                = Some (Inr v, ps\<lparr>ps_id := None\<rparr>)
            \<and> ps_id ps = Some v
            \<and> (\<forall>fmt calls rs ps'. run_calls fmt ps calls = Some (rs, ps') \<longrightarrow>
                  ps_id ps' = Some v \<and> get_identification ps' = Some (Inr v, ps')))"
proof
  assume i: "PowerSupply_init device = Some (Inr ps)"
  from PowerSupply_init_Inr(1)[OF i] obtain v where
    g: "get_id \<lparr>serial_port = Serial device, ps_id = None\<rparr> = Some (Inr v, ps\<lparr>ps_id := None\<rparr>)"
    and v: "ps_id ps = Some v"
    by blast
  have "ps_id ps' = Some v \<and> get_identification ps' = Some (Inr v, ps')"
    if "run_calls fmt ps calls = Some (rs, ps')" for fmt calls rs ps'
    using run_calls_keeps[OF that] v by (simp add: get_identification_def)
  with g v PowerSupply_init_Inr(2)[OF i]
  show "written (serial_port ps) = [''*IDN?'']
     \<and> (\<exists>v. get_id \<lparr>serial_port = Serial device, ps_id = None\<rparr>
                = Some (Inr v, ps\<lparr>ps_id := None\<rparr>)
            \<and> ps_id ps = Some v
            \<and> (\<forall>fmt calls rs ps'. run_calls fmt ps calls = Some (rs, ps') \<longrightarrow>
                  ps_id ps' = Some v \<and> get_identification ps' = Some (Inr v, ps')))"
    by blast
qed

lemma init_korad:
  "PowerSupply_init (''KORAD KA3005P'' ## [] ## rest) =
     Some (Inr \<lparr>serial_port = \<lparr>is_open = True, close_calls = 0, written = [''*IDN?''],
                               read_calls = 2, incoming = rest\<rparr>,
                ps_id = Some (PyStr ''KORAD KA3005P'')\<rparr>)"
proof -
  have "decode_response ''KORAD KA3005P'' = Inr (PyStr ''KORAD KA3005P'')"
    by (simp add: decode_response_def decode_utf8_def float_korad utf8_korad)
  then show ?thesis
    using execute_command_idle
            [of "\<lparr>serial_port = Serial (''KORAD KA3005P'' ## [] ## rest), ps_id = None\<rparr>"
                1 "''*IDN?''" True]
    by (simp add: PowerSupply_init_def get_id_def encode_utf8_def Serial_def
                  perform_bug_workarounds_def)
qed

text \<open>
  A supply that identifies itself as \<open>KORAD KA3005P\<close> and then reports the status byte
  \<open>0x40\<close>: after a status query and the closing of the port, the identity is still the
  one read at construction, and asking for it changes nothing.
\<close>

theorem identity_cached_witness:
  "PowerSupply_init (''KORAD KA3005P'' ## [] ## [CHR 0x40] ## [] ## sconst []) =
     Some (Inr \<lparr>serial_port = \<lparr>is_open = True, close_calls = 0, written = [''*IDN?''],
                               read_calls = 2, incoming = [CHR 0x40] ## [] ## sconst []\<rparr>,
                ps_id = Some (PyStr ''KORAD KA3005P'')\<rparr>)
   \<and> run_calls (\<lambda>x. ''12.5'')
        \<lparr>serial_port = \<lparr>is_open = True, close_calls = 0, written = [''*IDN?''],
                        read_calls = 2, incoming = [CHR 0x40] ## [] ## sconst []\<rparr>,
         ps_id = Some (PyStr ''KORAD KA3005P'')\<rparr>
        [IsOutputEnabled, GetIdentification, Exit] =
     Some ([Inr (PyBool True), Inr (PyStr ''KORAD KA3005P''), Inr PyNone],
           \<lparr>serial_port = \<lparr>is_open = False, close_calls = 1,
                           written = [''*IDN?'', ''STATUS?''],
                           read_calls = 4, incoming = sconst []\<rparr>,
            ps_id = Some (PyStr ''KORAD KA3005P'')\<rparr>)
   \<and> get_identification
        \<lparr>serial_port = \<lparr>is_open = False, close_calls = 1,
                        written = [''*IDN?'', ''STATUS?''],
                        read_calls = 4, incoming = sconst []\<rparr>,
         ps_id = Some (PyStr ''KORAD KA3005P'')\<rparr> =
     Some (Inr (PyStr ''KORAD KA3005P''),
           \<lparr>serial_port = \<lparr>is_open = False, close_calls = 1,
                           written = [''*IDN?'', ''STATUS?''],
                           read_calls = 4, incoming = sconst []\<rparr>,
            ps_id = Some (PyStr ''KORAD KA3005P'')\<rparr>)"
proof -
  let ?ps = "\<lparr>serial_port = \<lparr>is_open = True, close_calls = 0, written = [''*IDN?''],
                               read_calls = 2, incoming = [CHR 0x40] ## [] ## sconst []\<rparr>,
                ps_id = Some (PyStr ''KORAD KA3005P'')\<rparr>"
  let ?ps' = "\<lparr>serial_port = \<lparr>is_open = False, close_calls = 1,
                           written = [''*IDN?'', ''STATUS?''],
                           read_calls = 4, incoming = sconst []\<rparr>,
            ps_id = Some (PyStr ''KORAD KA3005P'')\<rparr>"
  have i: "PowerSupply_init (''KORAD KA3005P'' ## [] ## [CHR 0x40] ## [] ## sconst []) =
             Some (Inr ?ps)"
    by (rule init_korad)
  have r: "run_calls (\<lambda>x. ''12.5'') ?ps [IsOutputEnabled, GetIdentification, Exit] =
             Some ([Inr (PyBool True), Inr (PyStr ''KORAD KA3005P''), Inr PyNone], ?ps')"
    by (simp add: is_output_enabled_def encode_utf8_def status_reply OUTPUT_ENABLED_MASK_def
                  get_identification_def PowerSupply_exit_def serial_close_def)
  from identity_cached
         [where device = "''KORAD KA3005P'' ## [] ## [CHR 0x40] ## [] ## sconst []"
            and ps = ?ps] i
  have "\<forall>fmt calls rs ps'. run_calls fmt ?ps calls = Some (rs, ps') \<longrightarrow>
          get_identification ps' = Some (Inr (PyStr ''KORAD KA3005P''), ps')"
    by simp
  with r have "get_identification ?ps' = Some (Inr (PyStr ''KORAD KA3005P''), ?ps')"
    by blast
  with i r show ?thesis by simp
qed


section \<open>What the wrappers return\<close>

text \<open>
  C8, as the code has it. Every getter formats its fixed command, calls the engine once
  and returns the engine's result. Every setter, once its argument has passed the range
  check, formats its command and calls the engine once, but does not return what the
  engine returned: it returns \<open>None\<close> when the engine returned a value, raises what the
  engine raised, and does not return when the engine does not.
\<close>

theorem wrappers_return:
  "get_requested_output_voltage self = execute_command self ''VSET1?'' True
   \<and> get_output_voltage self = execute_command self ''VOUT1?'' True
   \<and> get_output_current self = execute_command self ''IOUT1?'' True
   \<and> get_requested_output_current self = execute_command self ''ISET1?'' True
   \<and> (float_le (Finite 0) v \<and> float_le v (Finite 30) \<longrightarrow>
        set_output_voltage fmt self v =
          return_none (execute_command self (''VSET1:'' @ fmt (PyFloat v)) True))
   \<and> (float_le (Finite 0) v \<and> float_le v (Finite 5) \<longrightarrow>
        set_output_current fmt self v =
          return_none (execute_command self (''ISET1:'' @ fmt (PyFloat v)) True))
   \<and> (1 \<le> i \<and> i \<le> 5 \<longrightarrow>
        recall_from_memory fmt self i =
          return_none (execute_command self (''RCL'' @ fmt (PyInt i)) True))
   \<and> (1 \<le> i \<and> i \<le> 5 \<longrightarrow>
        save_to_memory fmt self i =
          return_none (execute_command self (''SAV'' @ fmt (PyInt i)) True))
   \<and> enable_output self b =
        return_none (execute_command self (if b then ''OUT1'' else ''OUT0'') True)
   \<and> enable_over_voltage_protection self b =
        return_none (execute_command self (if b then ''OVP1'' else ''OVP0'') True)
   \<and> enable_over_current_protection self b =
        return_none (execute_command self (if b then ''OCP1'' else ''OCP0'') True)
   \<and> return_none (Some (Inr x, s')) = Some (Inr PyNone, s')
   \<and> return_none (Some (Inl e, s')) = Some (Inl e, s')
   \<and> return_none None = None"
proof (intro conjI impI)
  show "get_requested_output_voltage self = execute_command self ''VSET1?'' True"
    by (simp add: get_requested_output_voltage_def encode_utf8_def)
  show "get_output_voltage self = execute_command self ''VOUT1?'' True"
    by (simp add: get_output_voltage_def encode_utf8_def)
  show "get_output_current self = execute_command self ''IOUT1?'' True"
    by (simp add: get_output_current_def encode_utf8_def)
  show "get_requested_output_current self = execute_command self ''ISET1?'' True"
    by (simp add: get_requested_output_current_def encode_utf8_def)
  show "set_output_voltage fmt self v =
          return_none (execute_command self (''VSET1:'' @ fmt (PyFloat v)) True)"
    if "float_le (Finite 0) v \<and> float_le v (Finite 30)"
    using that by (simp add: set_output_voltage_def encode_utf8_def)
  show "set_output_current fmt self v =
          return_none (execute_command self (''ISET1:'' @ fmt (PyFloat v)) True)"
    if "float_le (Finite 0) v \<and> float_le v (Finite 5)"
    using that by (simp add: set_output_current_def encode_utf8_def)
  show "recall_from_memory fmt self i =
          return_none (execute_command self (''RCL'' @ fmt (PyInt i)) True)"
    if "1 \<le> i \<and> i \<le> 5"
    using that by (simp add: recall_from_memory_def encode_utf8_def)
  show "save_to_memory fmt self i =
          return_none (execute_command self (''SAV'' @ fmt (PyInt i)) True)"
    if "1 \<le> i \<and> i \<le> 5"
    using that by (simp add: save_to_memory_def encode_utf8_def)
  show "enable_output self b =
        return_none (execute_command self (if b then ''OUT1'' else ''OUT0'') True)"
    by (simp add: enable_output_def encode_utf8_def)
  show "enable_over_voltage_protection self b =
        return_none (execute_command self (if b then ''OVP1'' else ''OVP0'') True)"
    by (simp add: enable_over_voltage_protection_def encode_utf8_def)
  show "enable_over_current_protection self b =
        return_none (execute_command self (if b then ''OCP1'' else ''OCP0'') True)"
    by (simp add: enable_over_current_protection_def encode_utf8_def)
  show "return_none (Some (Inr x, s')) = Some (Inr PyNone, s')"
    by (simp add: return_none_def)
  show "return_none (Some (Inl e, s')) = Some (Inl e, s')"
    by (simp add: return_none_def)
  show "return_none None = None"
    by (simp add: return_none_def)
qed

lemma command_reply_12_50:
  "execute_command
     \<lparr>serial_port = \<lparr>is_open = True, close_calls = c, written = w, read_calls = k,
                     incoming = ''12.50'' ## [] ## rest\<rparr>, ps_id = i\<rparr> ''VSET1?'' True =
   Some (Inr (PyFloat (Finite 12.5)),
         \<lparr>serial_port = \<lparr>is_open = True, close_calls = c, written = w @ [''VSET1?''],
                         read_calls = Suc (Suc k), incoming = rest\<rparr>, ps_id = i\<rparr>)"
  using execute_command_idle
          [of "\<lparr>serial_port = \<lparr>is_open = True, close_calls = c, written = w, read_calls = k,
                   incoming = ''12.50'' ## [] ## rest\<rparr>, ps_id = i\<rparr>" 1 "''VSET1?''" True]
  by (simp add: perform_bug_workarounds_def decode_response_float float_12_50)

text \<open>
  A getter returns the number the engine decoded; a setter and a memory recall, sent to
  a supply that answers nothing, return \<open>None\<close>.
\<close>

theorem wrappers_return_witness:
  "get_requested_output_voltage
     \<lparr>serial_port = Serial (''12.50'' ## [] ## sconst []), ps_id = None\<rparr> =
   Some (Inr (PyFloat (Finite 12.5)),
         \<lparr>serial_port = \<lparr>is_open = True, close_calls = 0, written = [''VSET1?''],
                         read_calls = 2, incoming = sconst []\<rparr>, ps_id = None\<rparr>)
   \<and> set_output_voltage (\<lambda>x. ''12.5'') \<lparr>serial_port = Serial (sconst []), ps_id = None\<rparr>
        (Finite 12.5) =
   Some (Inr PyNone,
         \<lparr>serial_port = \<lparr>is_open = True, close_calls = 0, written = [''VSET1:12.5''],
                         read_calls = 1, incoming = sconst []\<rparr>, ps_id = None\<rparr>)
   \<and> recall_from_memory (\<lambda>x. ''3'') \<lparr>serial_port = Serial (sconst []), ps_id = None\<rparr> 3 =
   Some (Inr PyNone,
         \<lparr>serial_port = \<lparr>is_open = True, close_calls = 0, written = [''RCL3''],
                         read_calls = 1, incoming = sconst []\<rparr>, ps_id = None\<rparr>)"
  using wrappers_return
          [where self = "\<lparr>serial_port = Serial (''12.50'' ## [] ## sconst []), ps_id = None\<rparr>"]
        wrappers_return
          [where self = "\<lparr>serial_port = Serial (sconst []), ps_id = None\<rparr>"
             and fmt = "\<lambda>x. ''12.5''" and v = "Finite 12.5" and x = "PyStr []"
             and s' = "\<lparr>serial_port = \<lparr>is_open = True, close_calls = 0,
                    written = [''VSET1:12.5''], read_calls = 1, incoming = sconst []\<rparr>,
                    ps_id = None\<rparr>"]
        wrappers_return
          [where self = "\<lparr>serial_port = Serial (sconst []), ps_id = None\<rparr>"
             and fmt = "\<lambda>x. ''3''" and i = 3 and x = "PyStr []"
             and s' = "\<lparr>serial_port = \<lparr>is_open = True, close_calls = 0,
                    written = [''RCL3''], read_calls = 1, incoming = sconst []\<rparr>,
                    ps_id = None\<rparr>"]
  by (simp add: Serial_def command_silent command_reply_12_50)

text \<open>
  The engine, asked to send \<open>VSET1:12.5\<close> to a supply that answers nothing, returns the
  empty string. \<open>set_output_voltage\<close> makes that call and returns \<open>None\<close>, not the
  engine's result.
\<close>

theorem set_output_voltage_returns_none_counterexample:
  "execute_command \<lparr>serial_port = Serial (sconst []), ps_id = None\<rparr> ''VSET1:12.5'' True =
     Some (Inr (PyStr []),
           \<lparr>serial_port = \<lparr>is_open = True, close_calls = 0, written = [''VSET1:12.5''],
                           read_calls = 1, incoming = sconst []\<rparr>, ps_id = None\<rparr>)
   \<and> set_output_voltage (\<lambda>x. ''12.5'') \<lparr>serial_port = Serial (sconst []), ps_id = None\<rparr>
        (Finite 12.5) =
     Some (Inr PyNone,
           \<lparr>serial_port = \<lparr>is_open = True, close_calls = 0, written = [''VSET1:12.5''],
                           read_calls = 1, incoming = sconst []\<rparr>, ps_id = None\<rparr>)
   \<and> PyStr [] \<noteq> PyNone"
  by (simp add: set_output_voltage_def encode_utf8_def return_none_def Serial_def command_silent)

section \<open>Closing the port\<close>

text \<open>
  The path on which the driver closes the port. For an object whose construction
  succeeded, no method but \<open>__exit__\<close> closes the port: after every sequence of other
  calls, whether they return or raise, the port is open and \<open>close\<close> was never called,
  and \<open>__exit__\<close> then closes it with exactly one call of \<open>close\<close>.
\<close>

lemma exit_closes_port:
  "PowerSupply_init device = Some (Inr ps) \<and> Exit \<notin> set calls
      \<and> run_calls fmt ps calls = Some (rs, ps') \<longrightarrow>
        is_open (serial_port ps') \<and> close_calls (serial_port ps') = 0
        \<and> (\<exists>ps''. PowerSupply_exit ps' = Some (Inr PyNone, ps'')
               \<and> \<not> is_open (serial_port ps'') \<and> close_calls (serial_port ps'') = 1)"
proof (intro conjI impI)
  assume a: "PowerSupply_init device = Some (Inr ps) \<and> Exit \<notin> set calls
      \<and> run_calls fmt ps calls = Some (rs, ps')"
  then have i: "PowerSupply_init device = Some (Inr ps)"
    and r: "run_calls fmt ps calls = Some (rs, ps')" and n: "Exit \<notin> set calls"
    by simp_all
  from run_calls_keeps[OF r] n PowerSupply_init_Inr(3,4)[OF i]
  have o: "is_open (serial_port ps')" and c: "close_calls (serial_port ps') = 0"
    by simp_all
  then show "is_open (serial_port ps')" "close_calls (serial_port ps') = 0"
    by simp_all
  from o c show "\<exists>ps''. PowerSupply_exit ps' = Some (Inr PyNone, ps'')
               \<and> \<not> is_open (serial_port ps'') \<and> close_calls (serial_port ps'') = 1"
    by (simp add: PowerSupply_exit_def serial_close_def)
qed

text \<open>
  A supply that is asked for its output state, is given a voltage out of range, which
  raises, and is then left with \<open>__exit__\<close>: the port is closed by one call of \<open>close\<close>.
\<close>

lemma exit_closes_port_example:
  "PowerSupply_init (''KORAD KA3005P'' ## [] ## [CHR 0x40] ## [] ## sconst []) =
     Some (Inr \<lparr>serial_port = \<lparr>is_open = True, close_calls = 0, written = [''*IDN?''],
                               read_calls = 2, incoming = [CHR 0x40] ## [] ## sconst []\<rparr>,
                ps_id = Some (PyStr ''KORAD KA3005P'')\<rparr>)
   \<and> run_calls (\<lambda>x. ''12.5'')
        \<lparr>serial_port = \<lparr>is_open = True, close_calls = 0, written = [''*IDN?''],
                        read_calls = 2, incoming = [CHR 0x40] ## [] ## sconst []\<rparr>,
         ps_id = Some (PyStr ''KORAD KA3005P'')\<rparr>
        [IsOutputEnabled, SetOutputVoltage (Finite 31)] =
     Some ([Inr (PyBool True), Inl AssertionError],
           \<lparr>serial_port = \<lparr>is_open = True, close_calls = 0,
                           written = [''*IDN?'', ''STATUS?''],
                           read_calls = 4, incoming = sconst []\<rparr>,
            ps_id = Some (PyStr ''KORAD KA3005P'')\<rparr>)
   \<and> PowerSupply_exit
        \<lparr>serial_port = \<lparr>is_open = True, close_calls = 0,
                        written = [''*IDN?'', ''STATUS?''],
                        read_calls = 4, incoming = sconst []\<rparr>,
         ps_id = Some (PyStr ''KORAD KA3005P'')\<rparr> =
     Some (Inr PyNone,
           \<lparr>serial_port = \<lparr>is_open = False, close_calls = 1,
                           written = [''*IDN?'', ''STATUS?''],
                           read_calls = 4, incoming = sconst []\<rparr>,
            ps_id = Some (PyStr ''KORAD KA3005P'')\<rparr>)"
proof -
  let ?ps = "\<lparr>serial_port = \<lparr>is_open = True, close_calls = 0, written = [''*IDN?''],
                               read_calls = 2, incoming = [CHR 0x40] ## [] ## sconst []\<rparr>,
                ps_id = Some (PyStr ''KORAD KA3005P'')\<rparr>"
  let ?ps' = "\<lparr>serial_port = \<lparr>is_open = True, close_calls = 0,
                           written = [''*IDN?'', ''STATUS?''],
                           read_calls = 4, incoming = sconst []\<rparr>,
            ps_id = Some (PyStr ''KORAD KA3005P'')\<rparr>"
  have i: "PowerSupply_init (''KORAD KA3005P'' ## [] ## [CHR 0x40] ## [] ## sconst []) =
             Some (Inr ?ps)"
    by (rule init_korad)
  have r: "run_calls (\<lambda>x. ''12.5'') ?ps [IsOutputEnabled, SetOutputVoltage (Finite 31)] =
             Some ([Inr (PyBool True), Inl AssertionError], ?ps')"
    by (simp add: is_output_enabled_def encode_utf8_def status_reply OUTPUT_ENABLED_MASK_def
                  set_output_voltage_def)
  from exit_closes_port
         [where device = "''KORAD KA3005P'' ## [] ## [CHR 0x40] ## [] ## sconst []"
            and ps = ?ps and ps' = ?ps' and fmt = "\<lambda>x. ''12.5''"
            and calls = "[IsOutputEnabled, SetOutputVoltage (Finite 31)]"
            and rs = "[Inr (PyBool True), Inl AssertionError]"] i r
  have "\<exists>ps''. PowerSupply_exit ?ps' = Some (Inr PyNone, ps'')
               \<and> \<not> is_open (serial_port ps'') \<and> close_calls (serial_port ps'') = 1"
    by simp
  then have x: "PowerSupply_exit ?ps' =
     Some (Inr PyNone,
           \<lparr>serial_port = \<lparr>is_open = False, close_calls = 1,
                           written = [''*IDN?'', ''STATUS?''],
                           read_calls = 4, incoming = sconst []\<rparr>,
            ps_id = Some (PyStr ''KORAD KA3005P'')\<rparr>)"
    by (simp add: PowerSupply_exit_def serial_close_def)
  from i r x show ?thesis by simp
qed



end
